theory Spec2Isabelle
  imports Complex_Main
begin

section \<open>Python values and errors\<close>

text \<open>
  The transformer \<^verbatim>\<open>src/ca_secretary_of_state/transform.py\<close> works on untyped data read by
  \<^verbatim>\<open>json.load\<close>.  A raw value is therefore a JSON value; a dictionary is an association
  list whose keys are distinct (as in a parsed dictionary) and whose order is the insertion
  order.  Strings are lists of 8-bit characters, read as the code points below 256.
  A Python \<^verbatim>\<open>float\<close> is identified with the rational number it denotes (every
  finite double is a dyadic rational); \<^verbatim>\<open>-0.0\<close> and \<^verbatim>\<open>0.0\<close>, which compare equal in
  Python, are the same value here, and NaN and the infinities are not values of the model.
\<close>

type_synonym pyfloat = rat

datatype json =
    JNull
  | JBool bool
  | JInt int
  | JFloat pyfloat
  | JStr string
  | JArr "json list"
  | JObj "(string \<times> json) list"

text \<open>Every exception the code can raise is a value; \<open>KeyError\<close> carries the missing key.\<close>

datatype error =
    KeyError string
  | TypeError
  | AttributeError
  | ValueError
  | OverflowError
  | ZeroDivisionError
  | ValidationError

fun ebind :: "error + 'a \<Rightarrow> ('a \<Rightarrow> error + 'b) \<Rightarrow> error + 'b" where
  "ebind (Inl e) f = Inl e"
| "ebind (Inr x) f = f x"

text \<open>Running \<open>f\<close> over a list in order; the first exception ends the loop.\<close>

fun emap :: "('a \<Rightarrow> error + 'b) \<Rightarrow> 'a list \<Rightarrow> error + 'b list" where
  "emap f [] = Inr []"
| "emap f (x # xs) = ebind (f x) (\<lambda>y. ebind (emap f xs) (\<lambda>ys. Inr (y # ys)))"

subsection \<open>Subscripting, iteration, membership\<close>

text \<open>\<^verbatim>\<open>obj[key]\<close> with a string key: only a dictionary accepts it.\<close>

fun py_getitem :: "json \<Rightarrow> string \<Rightarrow> error + json" where
  "py_getitem (JObj kvs) k = (case map_of kvs k of None \<Rightarrow> Inl (KeyError k) | Some v \<Rightarrow> Inr v)"
| "py_getitem _ k = Inl TypeError"

text \<open>\<^verbatim>\<open>obj.get(key, None)\<close>: a method of dictionaries only.\<close>

fun py_get :: "json \<Rightarrow> string \<Rightarrow> error + json" where
  "py_get (JObj kvs) k = (case map_of kvs k of None \<Rightarrow> Inr JNull | Some v \<Rightarrow> Inr v)"
| "py_get _ k = Inl AttributeError"

text \<open>A dictionary assignment keeps the position of an existing key and appends a new one.\<close>

fun dict_set :: "(string \<times> json) list \<Rightarrow> string \<Rightarrow> json \<Rightarrow> (string \<times> json) list" where
  "dict_set [] k v = [(k, v)]"
| "dict_set ((k', v') # kvs) k v = (if k' = k then (k, v) # kvs else (k', v') # dict_set kvs k v)"

fun py_setitem :: "json \<Rightarrow> string \<Rightarrow> json \<Rightarrow> error + json" where
  "py_setitem (JObj kvs) k v = Inr (JObj (dict_set kvs k v))"
| "py_setitem _ k v = Inl TypeError"

text \<open>
  \<^verbatim>\<open>for x in obj\<close>: a list gives its elements, a dictionary its keys, a string its
  characters; nothing else is iterable.
\<close>

fun py_iter :: "json \<Rightarrow> error + json list" where
  "py_iter (JArr xs) = Inr xs"
| "py_iter (JObj kvs) = Inr (map (\<lambda>kv. JStr (fst kv)) kvs)"
| "py_iter (JStr s) = Inr (map (\<lambda>c. JStr [c]) s)"
| "py_iter _ = Inl TypeError"

fun starts_with :: "string \<Rightarrow> string \<Rightarrow> bool" where
  "starts_with s [] = True"
| "starts_with [] (c # cs) = False"
| "starts_with (d # ds) (c # cs) = (d = c \<and> starts_with ds cs)"

text \<open>\<^verbatim>\<open>needle in hay\<close> on two strings: the substring test.\<close>

fun str_contains :: "string \<Rightarrow> string \<Rightarrow> bool" where
  "str_contains [] needle = (needle = [])"
| "str_contains (c # cs) needle = (starts_with (c # cs) needle \<or> str_contains cs needle)"

text \<open>\<^verbatim>\<open>key in obj\<close> with a string on the left.\<close>

fun py_in :: "string \<Rightarrow> json \<Rightarrow> error + bool" where
  "py_in k (JObj kvs) = Inr (k \<in> fst ` set kvs)"
| "py_in k (JArr xs) = Inr (JStr k \<in> set xs)"
| "py_in k (JStr s) = Inr (str_contains s k)"
| "py_in k _ = Inl TypeError"

subsection \<open>String methods and \<^verbatim>\<open>int\<close>\<close>

text \<open>
  \<^verbatim>\<open>str.strip\<close> removes the characters for which \<^verbatim>\<open>str.isspace\<close> holds: below 256
  these are 9 to 13, 28 to 31, 32, 133 and 160.
\<close>

definition py_isspace :: "char \<Rightarrow> bool" where
  "py_isspace c =
     (let n = (of_char c :: nat)
      in (9 \<le> n \<and> n \<le> 13) \<or> (28 \<le> n \<and> n \<le> 31) \<or> n = 32 \<or> n = 133 \<or> n = 160)"

definition py_strip :: "string \<Rightarrow> string" where
  "py_strip s = rev (dropWhile py_isspace (rev (dropWhile py_isspace s)))"

text \<open>\<^verbatim>\<open>s.replace(",", "")\<close>\<close>

definition remove_commas :: "string \<Rightarrow> string" where
  "remove_commas s = filter (\<lambda>c. c \<noteq> CHR '','') s"

text \<open>
  \<^verbatim>\<open>str.lower\<close> on the ASCII letters.  The other characters below 256 are kept here;
  Python maps some of them to other characters above 127, never to an ASCII letter, so the
  comparison of a lowered string with an ASCII word comes out the same.
\<close>

definition lower_char :: "char \<Rightarrow> char" where
  "lower_char c =
     (case map_of (zip ''ABCDEFGHIJKLMNOPQRSTUVWXYZ'' ''abcdefghijklmnopqrstuvwxyz'') c of
        None \<Rightarrow> c
      | Some l \<Rightarrow> l)"

definition py_lower :: "string \<Rightarrow> string" where
  "py_lower s = map lower_char s"

definition is_digit :: "char \<Rightarrow> bool" where
  "is_digit c = (let n = (of_char c :: nat) in 48 \<le> n \<and> n \<le> 57)"

definition digit_val :: "char \<Rightarrow> int" where
  "digit_val c = int (of_char c) - 48"

text \<open>The value of a run of decimal digits, most significant first.\<close>

definition digits_val :: "string \<Rightarrow> int" where
  "digits_val ds = foldl (\<lambda>acc c. 10 * acc + digit_val c) 0 ds"

text \<open>
  The white space \<^verbatim>\<open>int\<close> skips on both sides of the literal: the ASCII characters 9 to 13
  and 32, and the white space above 127 (133 and 160), which the conversion turns into
  blanks first.  Unlike \<^verbatim>\<open>strip\<close> it does not skip 28 to 31.
\<close>

definition int_space :: "char \<Rightarrow> bool" where
  "int_space c =
     (let n = (of_char c :: nat) in (9 \<le> n \<and> n \<le> 13) \<or> n = 32 \<or> n = 133 \<or> n = 160)"

text \<open>Underscores may group digits: one at a time, and only between two digits.\<close>

fun grouping_ok :: "string \<Rightarrow> bool" where
  "grouping_ok [] = False"
| "grouping_ok [c] = is_digit c"
| "grouping_ok (c # d # cs) = (is_digit c \<and> (if d = CHR ''_'' then grouping_ok cs else grouping_ok (d # cs)))"

text \<open>
  \<^verbatim>\<open>int(s)\<close> in base 10: white space, an optional sign, digits (with grouping underscores),
  white space; anything else is a \<^verbatim>\<open>ValueError\<close>.  The interpreter's optional limit on the
  number of digits of the literal is taken to be switched off.
\<close>

definition py_int :: "string \<Rightarrow> error + int" where
  "py_int s =
     (let t = dropWhile int_space s;
          neg = (t \<noteq> [] \<and> hd t = CHR ''-'');
          u = (if t \<noteq> [] \<and> (hd t = CHR ''-'' \<or> hd t = CHR ''+'') then tl t else t);
          body = takeWhile (\<lambda>c. is_digit c \<or> c = CHR ''_'') u;
          rest = dropWhile (\<lambda>c. is_digit c \<or> c = CHR ''_'') u
      in if grouping_ok body \<and> list_all int_space rest
         then Inr ((if neg then - 1 else 1) * digits_val (filter is_digit body))
         else Inl ValueError)"

section \<open>Vote counts\<close>

text \<open>
  \<^verbatim>\<open>clean_votes\<close> is the same method in both transformer classes:
  \<^verbatim>\<open>s = value.strip().replace(",", ""); return int(s)\<close>.  Only a string has \<^verbatim>\<open>strip\<close>.
\<close>

fun clean_votes :: "json \<Rightarrow> error + int" where
  "clean_votes (JStr s) = py_int (remove_commas (py_strip s))"
| "clean_votes _ = Inl AttributeError"

section \<open>Floating-point division and rounding\<close>

text \<open>
  The share of a candidate is \<^verbatim>\<open>round(votes / vote_total, 4)\<close>: a true division of two
  integers, which gives the double nearest to the quotient, and a rounding of that double
  to four decimals, which gives the double nearest to the rounded decimal.  Both steps are
  modelled on the exact values.
\<close>

text \<open>Rounding to the nearest integer, a tie going to the even neighbour.\<close>

definition round_half_even :: "rat \<Rightarrow> int" where
  "round_half_even x =
     (let f = \<lfloor>x\<rfloor>; r = x - of_int f
      in if r < 1 / 2 then f else if 1 / 2 < r then f + 1 else if even f then f else f + 1)"

text \<open>\<^verbatim>\<open>int.bit_length\<close>, for an integer that is not negative.\<close>

function bit_length :: "int \<Rightarrow> int" where
  "bit_length n = (if n \<le> 0 then 0 else 1 + bit_length (n div 2))"
  by pat_completeness auto
termination
  by (relation "measure nat") auto

declare bit_length.simps [simp del]

definition pow2 :: "int \<Rightarrow> rat" where
  "pow2 e = (if 0 \<le> e then 2 ^ nat e else 1 / 2 ^ nat (- e))"

text \<open>For \<open>0 < a\<close>, the exponent \<open>e\<close> with \<open>2 ^ e \<le> a < 2 ^ (e + 1)\<close>.\<close>

definition floor_log2 :: "rat \<Rightarrow> int" where
  "floor_log2 a =
     (if 1 \<le> a then bit_length \<lfloor>a\<rfloor> - 1 else - bit_length (\<lceil>1 / a\<rceil> - 1))"

text \<open>
  The IEEE 754 binary64 number nearest to a rational (ties to even): 53 significant bits,
  exponents from \<open>-1022\<close> (below, the spacing stays \<open>2 ^ -1074\<close>: subnormal numbers), and no
  value from \<open>2 ^ 1024\<close> on, where the conversion overflows.
\<close>

definition binary64 :: "rat \<Rightarrow> pyfloat option" where
  "binary64 q =
     (if q = 0 then Some 0
      else let a = \<bar>q\<bar>;
               p = max (floor_log2 a) (- 1022) - 52;
               r = of_int (round_half_even (a / pow2 p)) * pow2 p
           in if pow2 1024 \<le> r then None else Some (sgn q * r))"

text \<open>\<^verbatim>\<open>a / b\<close> on two integers.\<close>

definition py_truediv :: "int \<Rightarrow> int \<Rightarrow> error + pyfloat" where
  "py_truediv a b =
     (if b = 0 then Inl ZeroDivisionError
      else case binary64 (of_int a / of_int b) of
             None \<Rightarrow> Inl OverflowError
           | Some x \<Rightarrow> Inr x)"

text \<open>
  \<^verbatim>\<open>round(x, ndigits)\<close> on a float, \<open>ndigits\<close> not negative: the exact value of \<open>x\<close> is
  rounded to that many decimals (ties to even), and the decimal is converted back.
\<close>

definition py_round :: "pyfloat \<Rightarrow> nat \<Rightarrow> error + pyfloat" where
  "py_round x ndigits =
     (case binary64 (of_int (round_half_even (x * 10 ^ ndigits)) / 10 ^ ndigits) of
        None \<Rightarrow> Inl OverflowError
      | Some y \<Rightarrow> Inr y)"

section \<open>The correction table\<close>

text \<open>
  \<^verbatim>\<open>get_corrections\<close> reads \<^verbatim>\<open>corrections.csv\<close> with \<^verbatim>\<open>csv.DictReader\<close> and indexes the
  rows by their \<^verbatim>\<open>raw_name\<close>.  A row is a dictionary from column names to cells; a cell
  is a string, or \<^verbatim>\<open>None\<close> where the line of the file was too short.  The table is a
  dictionary from raw titles to rows.  The file itself is not part of the model: the table
  is an input.
\<close>

type_synonym correction = "(string \<times> string option) list"

type_synonym corrections = "string \<rightharpoonup> correction"

text \<open>\<^verbatim>\<open>correction[column]\<close>\<close>

definition row_item :: "correction \<Rightarrow> string \<Rightarrow> error + string option" where
  "row_item row k = (case map_of row k of None \<Rightarrow> Inl (KeyError k) | Some v \<Rightarrow> Inr v)"

text \<open>The truth value of a cell: \<^verbatim>\<open>None\<close> and the empty string are false.\<close>

fun cell_true :: "string option \<Rightarrow> bool" where
  "cell_true None = False"
| "cell_true (Some s) = (s \<noteq> [])"

section \<open>External collaborators\<close>

text \<open>
  The canonical records built by the two \<^verbatim>\<open>transform_data\<close> methods.  The fields hold
  what the code puts there: a name is whatever JSON value the raw record had.  Both
  dictionaries have a key \<^verbatim>\<open>name\<close>; the one of the contest is the field \<open>contest_name\<close>.
\<close>

record candidate_result =
  name :: json
  party :: json
  votes :: int
  votes_percent :: json
  incumbent :: json

record contest =
  contest_name :: json
  slug :: string
  description :: "string option"
  geography :: "string option"
  precincts_reporting :: json
  candidates :: "candidate_result list"

text \<open>
  What the module imports and this development does not define is a parameter:
  \<^item> \<open>slugify\<close>: the function of the \<^verbatim>\<open>slugify\<close> package, which may reject its argument;
  \<^item> \<open>py_str\<close>: Python's \<^verbatim>\<open>str()\<close> on a value that is not a string (in an f-string);
  \<^item> \<open>candidate_schema\<close>, \<open>contest_schema\<close>: the records accepted by
    \<^verbatim>\<open>schema.CandidateResult\<close> and \<^verbatim>\<open>schema.Contest\<close>;
  \<^item> \<open>eager_transform\<close>: whether the constructor of \<^verbatim>\<open>schema.BaseTransformer\<close> already
    runs \<^verbatim>\<open>transform_data\<close> (and \<^verbatim>\<open>dump\<close> validates the stored result), or \<^verbatim>\<open>dump\<close>
    runs it.  The source does not decide it, and every theorem holds for both.
\<close>

record env =
  slugify :: "json \<Rightarrow> error + string"
  py_str :: "json \<Rightarrow> string"
  candidate_schema :: "candidate_result \<Rightarrow> bool"
  contest_schema :: "contest \<Rightarrow> bool"
  eager_transform :: bool

text \<open>
  Modelled from the spec: \<^verbatim>\<open>schema.BaseTransformer.dump\<close> is not under \<^verbatim>\<open>src/\<close>.  The
  transformed record is validated against the canonical schema; it is accepted as it is,
  or the validation fails.
\<close>

definition dump_candidate :: "env \<Rightarrow> candidate_result \<Rightarrow> error + candidate_result" where
  "dump_candidate E c = (if candidate_schema E c then Inr c else Inl ValidationError)"

definition dump_contest :: "env \<Rightarrow> contest \<Rightarrow> error + contest" where
  "dump_contest E c = (if contest_schema E c then Inr c else Inl ValidationError)"

section \<open>\<^verbatim>\<open>CandidateResultTransformer\<close>\<close>

text \<open>
  \<^verbatim>\<open>dict(name=raw["Name"], party=raw.get("Party", None), votes=clean_votes(raw["Votes"]),
  votes_percent=raw["votes_percent"], incumbent=raw.get("incumbent", None))\<close>,
  the arguments evaluated from left to right.
\<close>

definition candidate_transform_data :: "json \<Rightarrow> error + candidate_result" where
  "candidate_transform_data raw =
     ebind (py_getitem raw ''Name'') (\<lambda>n.
     ebind (py_get raw ''Party'') (\<lambda>p.
     ebind (py_getitem raw ''Votes'') (\<lambda>v.
     ebind (clean_votes v) (\<lambda>k.
     ebind (py_getitem raw ''votes_percent'') (\<lambda>vp.
     ebind (py_get raw ''incumbent'') (\<lambda>i.
     Inr \<lparr>name = n, party = p, votes = k, votes_percent = vp, incumbent = i\<rparr>))))))"

text \<open>\<^verbatim>\<open>CandidateResultTransformer(c).dump()\<close>\<close>

definition candidate_dump :: "env \<Rightarrow> json \<Rightarrow> error + candidate_result" where
  "candidate_dump E raw = ebind (candidate_transform_data raw) (dump_candidate E)"

section \<open>\<^verbatim>\<open>ContestTransformer\<close>\<close>

text \<open>
  \<^verbatim>\<open>_get_correction\<close>: the \<^verbatim>\<open>KeyError\<close> of a title with no row, and that of a raw record
  with no \<^verbatim>\<open>raceTitle\<close>, are both caught.  A title that is a list or a dictionary cannot be
  hashed (\<^verbatim>\<open>TypeError\<close>); any other title that is not a string is the key of no row.
\<close>

definition get_correction :: "corrections \<Rightarrow> json \<Rightarrow> error + correction option" where
  "get_correction corr raw =
     (case py_getitem raw ''raceTitle'' of
        Inl (KeyError k) \<Rightarrow> Inr None
      | Inl e \<Rightarrow> Inl e
      | Inr (JStr t) \<Rightarrow> Inr (corr t)
      | Inr (JArr xs) \<Rightarrow> Inl TypeError
      | Inr (JObj kvs) \<Rightarrow> Inl TypeError
      | Inr v \<Rightarrow> Inr None)"

text \<open>
  \<^verbatim>\<open>if not correction\<close>: true for \<^verbatim>\<open>None\<close> and for a row with no column.  The result is
  the row the methods go on with, if any.
\<close>

fun usable :: "correction option \<Rightarrow> correction option" where
  "usable None = None"
| "usable (Some row) = (if row = [] then None else Some row)"

text \<open>\<^verbatim>\<open>include\<close> (a reserved word here, hence the longer name).\<close>

definition include_contest :: "corrections \<Rightarrow> json \<Rightarrow> error + bool" where
  "include_contest corr raw =
     ebind (get_correction corr raw) (\<lambda>c.
       case usable c of
         None \<Rightarrow> Inr True
       | Some row \<Rightarrow>
           ebind (row_item row ''include'') (\<lambda>cell.
             case cell of
               None \<Rightarrow> Inl AttributeError
             | Some s \<Rightarrow> Inr (py_lower s = ''yes'')))"

definition correct_name :: "corrections \<Rightarrow> json \<Rightarrow> error + json" where
  "correct_name corr raw =
     ebind (get_correction corr raw) (\<lambda>c.
       case usable c of
         None \<Rightarrow> py_getitem raw ''raceTitle''
       | Some row \<Rightarrow>
           ebind (row_item row ''clean_name'') (\<lambda>cell.
             if cell_true cell then Inr (JStr (the cell)) else py_getitem raw ''raceTitle''))"

definition correct_description :: "corrections \<Rightarrow> json \<Rightarrow> error + string option" where
  "correct_description corr raw =
     ebind (get_correction corr raw) (\<lambda>c.
       case usable c of
         None \<Rightarrow> Inr None
       | Some row \<Rightarrow>
           ebind (row_item row ''clean_description'') (\<lambda>cell.
             Inr (if cell_true cell then cell else None)))"

definition correct_geography :: "corrections \<Rightarrow> json \<Rightarrow> error + string option" where
  "correct_geography corr raw =
     ebind (get_correction corr raw) (\<lambda>c.
       case usable c of
         None \<Rightarrow> Inr None
       | Some row \<Rightarrow>
           ebind (row_item row ''clean_geography'') (\<lambda>cell.
             Inr (if cell_true cell then cell else None)))"

text \<open>
  One turn of the loop of \<^verbatim>\<open>correct_incumbent\<close>:
  \<^verbatim>\<open>c["incumbent"] = c["Name"] in correction["incumbent"]\<close>.  The right operand is a
  string, so the left one has to be a string too.
\<close>

definition mark_incumbent :: "string \<Rightarrow> json \<Rightarrow> error + json" where
  "mark_incumbent inc c =
     ebind (py_getitem c ''Name'') (\<lambda>n.
       case n of
         JStr k \<Rightarrow> py_setitem c ''incumbent'' (JBool (str_contains inc k))
       | _ \<Rightarrow> Inl TypeError)"

text \<open>
  The loop changes the dictionaries of the list in place and the method returns the object
  it was given.  Here the changed elements are put back into the list; an object that is
  iterable but no list only gets through the loop when it is empty.
\<close>

definition correct_incumbent :: "corrections \<Rightarrow> json \<Rightarrow> json \<Rightarrow> error + json" where
  "correct_incumbent corr raw candidate_list =
     ebind (get_correction corr raw) (\<lambda>c.
       case usable c of
         None \<Rightarrow> Inr candidate_list
       | Some row \<Rightarrow>
           ebind (row_item row ''incumbent'') (\<lambda>cell.
             if cell_true cell
             then ebind (py_iter candidate_list) (\<lambda>cs.
                  ebind (emap (mark_incumbent (the cell)) cs) (\<lambda>cs'.
                  Inr (case candidate_list of JArr xs \<Rightarrow> JArr cs' | other \<Rightarrow> other)))
             else Inr candidate_list))"

text \<open>\<^verbatim>\<open>self.clean_votes(c["Votes"])\<close>, the summand of \<^verbatim>\<open>vote_total\<close>.\<close>

definition candidate_votes :: "json \<Rightarrow> error + int" where
  "candidate_votes c = ebind (py_getitem c ''Votes'') clean_votes"

text \<open>
  One turn of the loop that sets the vote percentages:
  \<^verbatim>\<open>round(self.clean_votes(c["Votes"]) / vote_total, 4)\<close> if \<^verbatim>\<open>vote_total > 0\<close>, else
  \<^verbatim>\<open>0.0\<close>, stored under \<^verbatim>\<open>votes_percent\<close>.
\<close>

definition set_percent :: "int \<Rightarrow> json \<Rightarrow> error + json" where
  "set_percent vote_total c =
     (if 0 < vote_total
      then ebind (candidate_votes c) (\<lambda>k.
           ebind (py_truediv k vote_total) (\<lambda>q.
           ebind (py_round q 4) (\<lambda>r.
           py_setitem c ''votes_percent'' (JFloat r))))
      else py_setitem c ''votes_percent'' (JFloat 0))"

text \<open>
  \<^verbatim>\<open>ContestTransformer.transform_data\<close>, statement by statement: the five fields of
  \<^verbatim>\<open>dict(...)\<close> from left to right, the incumbents, the list comprehension over the
  returned object, the total, the percentages, the candidates' \<^verbatim>\<open>dump\<close>.
\<close>

definition transform_data :: "env \<Rightarrow> corrections \<Rightarrow> json \<Rightarrow> error + contest" where
  "transform_data E corr raw =
     ebind (correct_name corr raw) (\<lambda>nm.
     ebind (py_getitem raw ''raceTitle'') (\<lambda>title.
     ebind (slugify E title) (\<lambda>sl.
     ebind (correct_description corr raw) (\<lambda>de.
     ebind (correct_geography corr raw) (\<lambda>ge.
     ebind (py_getitem raw ''Reporting'') (\<lambda>rep.
     ebind (py_getitem raw ''candidates'') (\<lambda>given.
     ebind (correct_incumbent corr raw given) (\<lambda>marked.
     ebind (py_iter marked) (\<lambda>candidate_list.
     ebind (emap candidate_votes candidate_list) (\<lambda>vs.
     ebind (emap (set_percent (sum_list vs)) candidate_list) (\<lambda>with_percent.
     ebind (emap (candidate_dump E) with_percent) (\<lambda>dumped.
     Inr \<lparr>contest_name = nm, slug = sl, description = de, geography = ge,
          precincts_reporting = rep, candidates = dumped\<rparr>))))))))))))"

section \<open>The driver \<^verbatim>\<open>cli\<close>\<close>

text \<open>The value an f-string puts in for \<^verbatim>\<open>{v}\<close>: a string as it is.\<close>

definition format_value :: "env \<Rightarrow> json \<Rightarrow> string" where
  "format_value E v = (case v of JStr s \<Rightarrow> s | _ \<Rightarrow> py_str E v)"

text \<open>The two synthesised candidates of a retention vote or a ballot measure.\<close>

definition yes_no :: "json \<Rightarrow> json \<Rightarrow> json" where
  "yes_no y n =
     JArr [JObj [(''Name'', JStr ''Yes''), (''Votes'', y)],
           JObj [(''Name'', JStr ''No''), (''Votes'', n)]]"

text \<open>The body of the loop over \<^verbatim>\<open>raw_data["supreme-court"]\<close>.\<close>

definition supreme_court_race :: "env \<Rightarrow> json \<Rightarrow> json \<Rightarrow> error + json" where
  "supreme_court_race E raw_data race =
     ebind (py_getitem race ''Name'') (\<lambda>nm.
     ebind (py_getitem raw_data ''Reporting'') (\<lambda>rep.
     ebind (py_getitem race ''yesVotes'') (\<lambda>y.
     ebind (py_getitem race ''noVotes'') (\<lambda>n.
     Inr (JObj [(''raceTitle'', JStr (''Retain Supreme Court Justice '' @ format_value E nm)),
                (''Reporting'', rep),
                (''candidates'', yes_no y n)])))))"

text \<open>The body of the loop over \<^verbatim>\<open>raw_data["ballot-measures"]\<close>.\<close>

definition ballot_measure_race :: "env \<Rightarrow> json \<Rightarrow> json \<Rightarrow> error + json" where
  "ballot_measure_race E raw_data race =
     ebind (py_getitem race ''Number'') (\<lambda>num.
     ebind (py_getitem race ''Name'') (\<lambda>nm.
     ebind (py_getitem raw_data ''Reporting'') (\<lambda>rep.
     ebind (py_getitem race ''yesVotes'') (\<lambda>y.
     ebind (py_getitem race ''noVotes'') (\<lambda>n.
     Inr (JObj [(''raceTitle'',
                   JStr (''Proposition '' @ format_value E num @ '': '' @ format_value E nm)),
                (''Reporting'', rep),
                (''candidates'', yes_no y n)]))))))"

text \<open>
  What one raw file adds to \<^verbatim>\<open>contest_list\<close>; \<open>stem\<close> is \<^verbatim>\<open>file_path.parent.stem\<close>,
  which the source calls \<^verbatim>\<open>slug\<close>.
  \<^verbatim>\<open>extend\<close> takes the elements of any iterable.
\<close>

definition flatten_file :: "env \<Rightarrow> string \<Rightarrow> json \<Rightarrow> error + json list" where
  "flatten_file E stem raw_data =
     ebind (py_in ''races'' raw_data) (\<lambda>has_races.
       if has_races then ebind (py_getitem raw_data ''races'') py_iter
       else if stem = ''supreme-court''
       then ebind (py_getitem raw_data ''supreme-court'') (\<lambda>l.
            ebind (py_iter l) (emap (supreme_court_race E raw_data)))
       else if stem = ''ballot-measures''
       then ebind (py_getitem raw_data ''ballot-measures'') (\<lambda>l.
            ebind (py_iter l) (emap (ballot_measure_race E raw_data)))
       else Inr [raw_data])"

text \<open>The first loop of \<^verbatim>\<open>cli\<close>, over the files in the order of their discovery.\<close>

definition flatten :: "env \<Rightarrow> (string \<times> json) list \<Rightarrow> error + json list" where
  "flatten E files =
     ebind (emap (\<lambda>f. flatten_file E (fst f) (snd f)) files) (\<lambda>ls. Inr (concat ls))"

text \<open>
  The body of the second loop:
  \<^verbatim>\<open>obj = ContestTransformer(contest, corrections)\<close>, \<^verbatim>\<open>if not obj.include(): continue\<close>,
  \<^verbatim>\<open>append(obj.dump())\<close>.  The result is \<open>None\<close> for a contest that is left out.

  Modelled from the spec: the constructor and \<^verbatim>\<open>dump\<close> of \<^verbatim>\<open>schema.BaseTransformer\<close> are
  not under \<^verbatim>\<open>src/\<close>; the contest is normalised by \<^verbatim>\<open>transform_data\<close> and then validated
  against the canonical schema, in the constructor or in \<^verbatim>\<open>dump\<close>.
\<close>

definition transform_contest :: "env \<Rightarrow> corrections \<Rightarrow> json \<Rightarrow> error + contest option" where
  "transform_contest E corr raw =
     (if eager_transform E
      then ebind (transform_data E corr raw) (\<lambda>d.
           ebind (include_contest corr raw) (\<lambda>keep.
           if keep then ebind (dump_contest E d) (\<lambda>c. Inr (Some c)) else Inr None))
      else ebind (include_contest corr raw) (\<lambda>keep.
           if keep
           then ebind (transform_data E corr raw) (\<lambda>d.
                ebind (dump_contest E d) (\<lambda>c. Inr (Some c)))
           else Inr None))"

text \<open>The accepted contests, in the order of \<^verbatim>\<open>contest_list\<close>.\<close>

fun accepted :: "contest option list \<Rightarrow> contest list" where
  "accepted [] = []"
| "accepted (None # xs) = accepted xs"
| "accepted (Some c # xs) = c # accepted xs"

definition transform_list :: "env \<Rightarrow> corrections \<Rightarrow> json list \<Rightarrow> error + contest list" where
  "transform_list E corr contest_list =
     ebind (emap (transform_contest E corr) contest_list) (\<lambda>rs. Inr (accepted rs))"

text \<open>The document both output files hold.\<close>

record transformed =
  scraped_datetime :: string
  races :: "contest list"

text \<open>The directory of the transformed data: file names and what they hold.\<close>

type_synonym directory = "string \<rightharpoonup> transformed"

text \<open>
  Modelled from the spec: \<^verbatim>\<open>utils.write_json\<close> is not under \<^verbatim>\<open>src/\<close>; it replaces the
  content of the file at the path by the document.
\<close>

definition write_json :: "transformed \<Rightarrow> string \<Rightarrow> directory \<Rightarrow> directory" where
  "write_json doc path dir = dir(path \<mapsto> doc)"

text \<open>
  \<^verbatim>\<open>cli\<close>.  Its inputs are the raw files found (the stem of the parent directory and the
  parsed content of each, in the order of discovery), the correction table as
  \<^verbatim>\<open>get_corrections\<close> has loaded it, the time \<^verbatim>\<open>utils.now().isoformat()\<close> and the
  output directory; it returns how the run ended and the output directory after it.  An
  exception ends the run where it is raised, and both writes come last.
\<close>

definition cli ::
  "env \<Rightarrow> (string \<times> json) list \<Rightarrow> corrections \<Rightarrow> string \<Rightarrow> directory \<Rightarrow> (error + unit) \<times> directory" where
  "cli E files corr now dir =
     (case flatten E files of
        Inl e \<Rightarrow> (Inl e, dir)
      | Inr contest_list \<Rightarrow>
          (case transform_list E corr contest_list of
             Inl e \<Rightarrow> (Inl e, dir)
           | Inr rs \<Rightarrow>
               let transformed_list = \<lparr>scraped_datetime = now, races = rs\<rparr>;
                   dir1 = write_json transformed_list (now @ ''.json'') dir;
                   dir2 = write_json transformed_list ''latest.json'' dir1
               in (Inr (), dir2)))"

section \<open>Notions of the specification\<close>

text \<open>
  The incumbent value a correction specifies, if any: the \<^verbatim>\<open>incumbent\<close> cell of the row,
  when there is a row and the cell is not empty.
\<close>

definition incumbent_names :: "correction option \<Rightarrow> string option" where
  "incumbent_names c =
     (case usable c of
        None \<Rightarrow> None
      | Some row \<Rightarrow>
          (case map_of row ''incumbent'' of
             Some (Some inc) \<Rightarrow> if inc = [] then None else Some inc
           | _ \<Rightarrow> None))"

text \<open>What \<^verbatim>\<open>correct_incumbent\<close> does to one candidate under a correction.\<close>

definition marked_as :: "correction option \<Rightarrow> json \<Rightarrow> json \<Rightarrow> bool" where
  "marked_as c x y =
     (case incumbent_names c of None \<Rightarrow> y = x | Some inc \<Rightarrow> mark_incumbent inc x = Inr y)"

text \<open>
  The clean name the table gives for a raw title, if any: the \<^verbatim>\<open>clean_name\<close> cell of the
  row of that title, when there is a row and the cell is not empty.
\<close>

definition clean_name :: "corrections \<Rightarrow> json \<Rightarrow> string option" where
  "clean_name corr title =
     (case title of
        JStr t \<Rightarrow>
          (case corr t of
             None \<Rightarrow> None
           | Some row \<Rightarrow>
               (case map_of row ''clean_name'' of
                  Some (Some cn) \<Rightarrow> if cn = [] then None else Some cn
                | _ \<Rightarrow> None))
      | _ \<Rightarrow> None)"

text \<open>
  The contests the specification wants in the output: those with no correction row for
  their exact raw title, and those whose row has an \<^verbatim>\<open>include\<close> flag that reads ``yes''
  whatever the case of its letters.  (A row with no column at all counts as no row; the
  loader cannot produce one, since it indexes every row by its \<^verbatim>\<open>raw_name\<close>.)
\<close>

definition kept :: "corrections \<Rightarrow> json \<Rightarrow> bool" where
  "kept corr raw =
     (case py_getitem raw ''raceTitle'' of
        Inr (JStr t) \<Rightarrow>
          (case usable (corr t) of
             None \<Rightarrow> True
           | Some row \<Rightarrow>
               (case map_of row ''include'' of
                  Some (Some flag) \<Rightarrow> py_lower flag = ''yes''
                | _ \<Rightarrow> False))
      | _ \<Rightarrow> True)"

text \<open>The number a \<^verbatim>\<open>votes_percent\<close> field holds, and the sum of the shares of a contest.\<close>

definition percent_value :: "json \<Rightarrow> rat" where
  "percent_value v = (case v of JFloat p \<Rightarrow> p | _ \<Rightarrow> 0)"

definition shares_sum :: "contest \<Rightarrow> rat" where
  "shares_sum d = sum_list (map (\<lambda>out. percent_value (votes_percent out)) (candidates d))"

section \<open>Example inputs\<close>

text \<open>
  Externals for the examples: a stand-in for \<^verbatim>\<open>slugify\<close> that lowers the letters and puts
  hyphens for blanks, schemas that accept every record, and \<^verbatim>\<open>transform_data\<close> run by
  \<^verbatim>\<open>dump\<close>.
\<close>

definition example_env :: env where
  "example_env =
     \<lparr>slugify = (\<lambda>v. case v of
                     JStr s \<Rightarrow> Inr (map (\<lambda>c. if c = CHR '' '' then CHR ''-'' else lower_char c) s)
                   | _ \<Rightarrow> Inl TypeError),
      py_str = (\<lambda>v. ''?''),
      candidate_schema = (\<lambda>c. True),
      contest_schema = (\<lambda>c. True),
      eager_transform = False\<rparr>"

text \<open>The same externals with a contest schema that rejects every record.\<close>

definition rejecting_env :: env where
  "rejecting_env = example_env\<lparr>contest_schema := (\<lambda>c. False)\<rparr>"

text \<open>A contest with a correction row that renames it and names an incumbent.\<close>

definition messy_candidates :: json where
  "messy_candidates =
     JArr [JObj [(''Name'', JStr ''Alice''), (''Votes'', JStr ''1'')],
           JObj [(''Name'', JStr ''Bob''), (''Votes'', JStr ''1'')]]"

definition messy_contest :: json where
  "messy_contest =
     JObj [(''raceTitle'', JStr ''Messy Title''),
           (''Reporting'', JStr ''100%''),
           (''candidates'', messy_candidates)]"

definition messy_row :: correction where
  "messy_row =
     [(''raw_name'', Some ''Messy Title''), (''include'', Some ''Yes''),
      (''clean_name'', Some ''Clean Title''), (''clean_description'', Some []),
      (''clean_geography'', Some []), (''incumbent'', Some ''Alice'')]"

text \<open>A contest the table excludes, and one the table does not mention.\<close>

definition unwanted_contest :: json where
  "unwanted_contest =
     JObj [(''raceTitle'', JStr ''Unwanted''),
           (''Reporting'', JStr ''0%''),
           (''candidates'', JArr [])]"

definition unwanted_row :: correction where
  "unwanted_row =
     [(''raw_name'', Some ''Unwanted''), (''include'', Some ''no''),
      (''clean_name'', Some []), (''clean_description'', Some []),
      (''clean_geography'', Some []), (''incumbent'', Some [])]"

definition quiet_contest :: json where
  "quiet_contest =
     JObj [(''raceTitle'', JStr ''Quiet Race''),
           (''Reporting'', JStr ''0%''),
           (''candidates'',
            JArr [JObj [(''Name'', JStr ''Carol''), (''Votes'', JStr ''0'')],
                  JObj [(''Name'', JStr ''Dan''), (''Votes'', JStr ''0'')]])]"

definition example_corrections :: corrections where
  "example_corrections = [''Messy Title'' \<mapsto> messy_row, ''Unwanted'' \<mapsto> unwanted_row]"

text \<open>What the two contests that are kept become.\<close>

definition clean_contest :: contest where
  "clean_contest =
     \<lparr>contest_name = JStr ''Clean Title'', slug = ''messy-title'', description = None,
      geography = None, precincts_reporting = JStr ''100%'',
      candidates =
        [\<lparr>name = JStr ''Alice'', party = JNull, votes = 1, votes_percent = JFloat (1 / 2),
          incumbent = JBool True\<rparr>,
         \<lparr>name = JStr ''Bob'', party = JNull, votes = 1, votes_percent = JFloat (1 / 2),
          incumbent = JBool False\<rparr>]\<rparr>"

definition quiet_result :: contest where
  "quiet_result =
     \<lparr>contest_name = JStr ''Quiet Race'', slug = ''quiet-race'', description = None,
      geography = None, precincts_reporting = JStr ''0%'',
      candidates =
        [\<lparr>name = JStr ''Carol'', party = JNull, votes = 0, votes_percent = JFloat 0,
          incumbent = JNull\<rparr>,
         \<lparr>name = JStr ''Dan'', party = JNull, votes = 0, votes_percent = JFloat 0,
          incumbent = JNull\<rparr>]\<rparr>"

text \<open>The candidates of the first contest after \<^verbatim>\<open>correct_incumbent\<close>.\<close>

definition marked_candidates :: json where
  "marked_candidates =
     JArr [JObj [(''Name'', JStr ''Alice''), (''Votes'', JStr ''1''), (''incumbent'', JBool True)],
           JObj [(''Name'', JStr ''Bob''), (''Votes'', JStr ''1''), (''incumbent'', JBool False)]]"

text \<open>Six candidates with one vote each, and the contest they become.\<close>

definition six_names :: "string list" where
  "six_names = [''A'', ''B'', ''C'', ''D'', ''E'', ''F'']"

definition six_way_contest :: json where
  "six_way_contest =
     JObj [(''raceTitle'', JStr ''Six Way''),
           (''Reporting'', JStr ''100%''),
           (''candidates'',
            JArr (map (\<lambda>n. JObj [(''Name'', JStr n), (''Votes'', JStr ''1'')]) six_names))]"

definition six_way_result :: contest where
  "six_way_result =
     \<lparr>contest_name = JStr ''Six Way'', slug = ''six-way'', description = None,
      geography = None, precincts_reporting = JStr ''100%'',
      candidates =
        map (\<lambda>n. \<lparr>name = JStr n, party = JNull, votes = 1,
                    votes_percent = JFloat (6006000463061293 / 36028797018963968),
                    incumbent = JNull\<rparr>)
          six_names\<rparr>"

text \<open>Raw files: a race list, a retention vote, and two files that cannot be processed.\<close>

definition race_list_fields :: "(string \<times> json) list" where
  "race_list_fields = [(''races'', JArr [messy_contest, unwanted_contest, quiet_contest])]"

definition smith_fields :: "(string \<times> json) list" where
  "smith_fields =
     [(''supreme-court'',
       JArr [JObj [(''Name'', JStr ''Smith''), (''yesVotes'', JStr ''100''),
                   (''noVotes'', JStr ''50'')]]),
      (''Reporting'', JStr ''80%'')]"

definition smith_contest :: json where
  "smith_contest =
     JObj [(''raceTitle'', JStr ''Retain Supreme Court Justice Smith''),
           (''Reporting'', JStr ''80%''),
           (''candidates'',
            JArr [JObj [(''Name'', JStr ''Yes''), (''Votes'', JStr ''100'')],
                  JObj [(''Name'', JStr ''No''), (''Votes'', JStr ''50'')]])]"

definition bad_votes_file :: json where
  "bad_votes_file =
     JObj [(''raceTitle'', JStr ''Governor''),
           (''Reporting'', JStr ''10%''),
           (''candidates'', JArr [JObj [(''Name'', JStr ''Erin''), (''Votes'', JStr ''abc'')]])]"

definition no_reporting_file :: json where
  "no_reporting_file =
     JObj [(''supreme-court'',
            JArr [JObj [(''Name'', JStr ''Smith''), (''yesVotes'', JStr ''100''),
                        (''noVotes'', JStr ''50'')]])]"

text \<open>An output directory that already holds the result of an earlier run.\<close>

definition earlier_output :: directory where
  "earlier_output =
     [''latest.json'' \<mapsto> \<lparr>scraped_datetime = ''2022-11-08T20:00:00'', races = []\<rparr>]"

text \<open>Two times of day, and the document a run over the race list writes.\<close>

definition example_now :: string where
  "example_now = ''2022-11-09T00:00:00''"


definition example_batch :: "string \<Rightarrow> transformed" where
  "example_batch now = \<lparr>scraped_datetime = now, races = [clean_contest, quiet_result]\<rparr>"

section \<open>The error monad and the parser of integers\<close>

lemma ebind_Inr_iff: "ebind m f = Inr y \<longleftrightarrow> (\<exists>x. m = Inr x \<and> f x = Inr y)"
  by (cases m) auto

lemma emap_Inr_iff: "emap f xs = Inr ys \<longleftrightarrow> list_all2 (\<lambda>x y. f x = Inr y) xs ys"
proof (induction xs arbitrary: ys)
  case Nil
  show ?case by auto
next
  case (Cons x xs)
  show ?case
    by (cases ys) (auto simp: ebind_Inr_iff Cons.IH)
qed











section \<open>Dictionaries and the passes over the candidates\<close>

lemma map_of_dict_set: "map_of (dict_set kvs k v) = (map_of kvs)(k \<mapsto> v)"
  by (induction kvs) (auto simp: fun_eq_iff)

lemma py_setitem_getitem:
  "py_setitem c k v = Inr c' \<Longrightarrow> py_getitem c' k' = (if k' = k then Inr v else py_getitem c k')"
  by (cases c) (auto simp: map_of_dict_set)

lemma py_setitem_get:
  "py_setitem c k v = Inr c' \<Longrightarrow> py_get c' k' = (if k' = k then Inr v else py_get c k')"
  by (cases c) (auto simp: map_of_dict_set)

lemma mark_incumbent_Inr:
  "mark_incumbent inc c = Inr c' \<Longrightarrow>
     \<exists>k. py_getitem c ''Name'' = Inr (JStr k) \<and>
         py_setitem c ''incumbent'' (JBool (str_contains inc k)) = Inr c'"
proof -
  assume "mark_incumbent inc c = Inr c'"
  then obtain n where n: "py_getitem c ''Name'' = Inr n"
    and r: "(case n of JStr k \<Rightarrow> py_setitem c ''incumbent'' (JBool (str_contains inc k))
             | _ \<Rightarrow> Inl TypeError) = Inr c'"
    by (auto simp: mark_incumbent_def ebind_Inr_iff)
  from r n show ?thesis by (cases n) auto
qed

lemma set_percent_Inr:
  "set_percent t c = Inr c' \<Longrightarrow>
     \<exists>p. py_setitem c ''votes_percent'' (JFloat p) = Inr c' \<and>
         (if 0 < t
          then \<exists>k q. candidate_votes c = Inr k \<and> py_truediv k t = Inr q \<and> py_round q 4 = Inr p
          else p = 0)"
  by (auto simp: set_percent_def ebind_Inr_iff split: if_splits)

lemma candidate_dump_Inr:
  "candidate_dump E c = Inr out \<Longrightarrow>
     py_getitem c ''Name'' = Inr (name out) \<and> py_get c ''Party'' = Inr (party out) \<and>
     candidate_votes c = Inr (votes out) \<and>
     py_getitem c ''votes_percent'' = Inr (votes_percent out) \<and>
     py_get c ''incumbent'' = Inr (incumbent out)"
  by (auto simp: candidate_dump_def candidate_transform_data_def dump_candidate_def
      candidate_votes_def ebind_Inr_iff split: if_splits)

lemma correct_incumbent_cases:
  assumes "correct_incumbent corr raw given = Inr marked"
  obtains (unchanged) c where "get_correction corr raw = Inr c" "marked = given"
      "usable c = None \<or> (\<exists>row cell. usable c = Some row \<and> map_of row ''incumbent'' = Some cell \<and> \<not> cell_true cell)"
    | (marked) c row inc cs cs' where "get_correction corr raw = Inr c" "usable c = Some row"
      "map_of row ''incumbent'' = Some (Some inc)" "inc \<noteq> []"
      "py_iter given = Inr cs" "py_iter marked = Inr cs'"
      "list_all2 (\<lambda>x y. mark_incumbent inc x = Inr y) cs cs'"
proof -
  from assms obtain c where c: "get_correction corr raw = Inr c"
    and rest: "(case usable c of
         None \<Rightarrow> Inr given
       | Some row \<Rightarrow>
           ebind (row_item row ''incumbent'') (\<lambda>cell.
             if cell_true cell
             then ebind (py_iter given) (\<lambda>cs.
                  ebind (emap (mark_incumbent (the cell)) cs) (\<lambda>cs'.
                  Inr (case given of JArr xs \<Rightarrow> JArr cs' | other \<Rightarrow> other)))
             else Inr given)) = Inr marked"
    by (auto simp: correct_incumbent_def ebind_Inr_iff)
  show ?thesis
  proof (cases "usable c")
    case None
    with rest c unchanged show ?thesis by simp
  next
    case (Some row)
    with rest obtain cell where cell: "map_of row ''incumbent'' = Some cell"
      and r2: "(if cell_true cell
             then ebind (py_iter given) (\<lambda>cs.
                  ebind (emap (mark_incumbent (the cell)) cs) (\<lambda>cs'.
                  Inr (case given of JArr xs \<Rightarrow> JArr cs' | other \<Rightarrow> other)))
             else Inr given) = Inr marked"
      by (auto simp: ebind_Inr_iff row_item_def split: option.splits)
    show ?thesis
    proof (cases "cell_true cell")
      case False
      with r2 c Some cell unchanged show ?thesis by auto
    next
      case True
      then obtain inc where inc: "cell = Some inc" "inc \<noteq> []" by (cases cell) auto
      from r2 True inc obtain cs cs' where cs: "py_iter given = Inr cs"
        and m: "list_all2 (\<lambda>x y. mark_incumbent inc x = Inr y) cs cs'"
        and res: "marked = (case given of JArr xs \<Rightarrow> JArr cs' | other \<Rightarrow> other)"
        by (auto simp: ebind_Inr_iff emap_Inr_iff)
      have "py_iter marked = Inr cs'"
      proof (cases given)
        case (JArr xs)
        with res show ?thesis by simp
      next
        case (JObj kvs)
        with cs m have "cs' = []"
          by (cases kvs) (auto simp: mark_incumbent_def list_all2_Cons1)
        moreover from this m have "cs = []" by simp
        ultimately show ?thesis using cs res JObj by simp
      next
        case (JStr s)
        with cs m have "cs' = []"
          by (cases s) (auto simp: mark_incumbent_def list_all2_Cons1)
        moreover from this m have "cs = []" by simp
        ultimately show ?thesis using cs res JStr by simp
      qed (use cs in auto)
      with c Some cell inc cs m marked show ?thesis by blast
    qed
  qed
qed

lemma transform_data_Inr:
  assumes "transform_data E corr raw = Inr d"
  obtains title given marked candidate_list vs with_percent where
    "correct_name corr raw = Inr (contest_name d)"
    "py_getitem raw ''raceTitle'' = Inr title"
    "slugify E title = Inr (slug d)"
    "correct_description corr raw = Inr (description d)"
    "correct_geography corr raw = Inr (geography d)"
    "py_getitem raw ''Reporting'' = Inr (precincts_reporting d)"
    "py_getitem raw ''candidates'' = Inr given"
    "correct_incumbent corr raw given = Inr marked"
    "py_iter marked = Inr candidate_list"
    "list_all2 (\<lambda>c v. candidate_votes c = Inr v) candidate_list vs"
    "list_all2 (\<lambda>c c'. set_percent (sum_list vs) c = Inr c') candidate_list with_percent"
    "list_all2 (\<lambda>c out. candidate_dump E c = Inr out) with_percent (candidates d)"
  using assms unfolding transform_data_def ebind_Inr_iff emap_Inr_iff
  by (elim exE conjE) auto

lemma correct_incumbent_marked_as:
  assumes "correct_incumbent corr raw given = Inr marked" "py_iter marked = Inr cs'"
  obtains c cs where "get_correction corr raw = Inr c" "py_iter given = Inr cs"
    "list_all2 (marked_as c) cs cs'"
  using assms(1)
proof (cases rule: correct_incumbent_cases)
  case (unchanged c)
  then have "incumbent_names c = None"
    by (auto simp: incumbent_names_def split: option.splits)
  then have "list_all2 (marked_as c) cs' cs'"
    by (simp add: marked_as_def list_all2_same)
  with unchanged assms(2) that show ?thesis by simp
next
  case (marked c row inc cs cs2)
  then have "incumbent_names c = Some inc" by (simp add: incumbent_names_def)
  then have "marked_as c = (\<lambda>x y. mark_incumbent inc x = Inr y)"
    by (simp add: marked_as_def fun_eq_iff)
  moreover have "cs2 = cs'" using marked(6) assms(2) by simp
  ultimately have "list_all2 (marked_as c) cs cs'" using marked(7) by simp
  with marked(1,5) that show ?thesis by blast
qed

lemma marked_as_keeps:
  assumes "marked_as c x y" "key \<noteq> ''incumbent''"
  shows "py_getitem y key = py_getitem x key \<and> py_get y key = py_get x key"
proof (cases "incumbent_names c")
  case None
  with assms show ?thesis by (simp add: marked_as_def)
next
  case (Some inc)
  with assms(1) have "mark_incumbent inc x = Inr y" by (simp add: marked_as_def)
  then obtain k where "py_setitem x ''incumbent'' (JBool (str_contains inc k)) = Inr y"
    using mark_incumbent_Inr by blast
  from py_setitem_getitem [OF this, of key] py_setitem_get [OF this, of key] assms(2)
  show ?thesis by simp
qed

lemma marked_as_incumbent:
  assumes "marked_as c x y"
  shows "case incumbent_names c of
           None \<Rightarrow> py_get y ''incumbent'' = py_get x ''incumbent''
         | Some inc \<Rightarrow> \<exists>k. py_getitem x ''Name'' = Inr (JStr k) \<and>
                          py_get y ''incumbent'' = Inr (JBool (str_contains inc k))"
proof (cases "incumbent_names c")
  case None
  with assms show ?thesis by (simp add: marked_as_def)
next
  case (Some inc)
  with assms(1) have "mark_incumbent inc x = Inr y" by (simp add: marked_as_def)
  then obtain k where k: "py_getitem x ''Name'' = Inr (JStr k)"
    and "py_setitem x ''incumbent'' (JBool (str_contains inc k)) = Inr y"
    using mark_incumbent_Inr by blast
  from py_setitem_get [OF this(2), of "''incumbent''"] k Some
  show ?thesis by simp
qed

lemma set_percent_keeps:
  assumes "set_percent t x = Inr y" "key \<noteq> ''votes_percent''"
  shows "py_getitem y key = py_getitem x key \<and> py_get y key = py_get x key"
proof -
  from set_percent_Inr [OF assms(1)]
  obtain p where "py_setitem x ''votes_percent'' (JFloat p) = Inr y" by blast
  from py_setitem_getitem [OF this, of key] py_setitem_get [OF this, of key] assms(2)
  show ?thesis by simp
qed

lemma set_percent_value:
  assumes "set_percent t x = Inr y"
  shows "\<exists>p. py_getitem y ''votes_percent'' = Inr (JFloat p) \<and>
           (if 0 < t
            then \<exists>k q. candidate_votes x = Inr k \<and> py_truediv k t = Inr q \<and> py_round q 4 = Inr p
            else p = 0)"
proof -
  from set_percent_Inr [OF assms(1)]
  obtain p where p: "py_setitem x ''votes_percent'' (JFloat p) = Inr y"
    and v: "if 0 < t
          then \<exists>k q. candidate_votes x = Inr k \<and> py_truediv k t = Inr q \<and> py_round q 4 = Inr p
          else p = 0" by blast
  from py_setitem_getitem [OF p, of "''votes_percent''"] v
  show ?thesis by auto
qed

text \<open>What the three passes over the candidates make of one raw candidate.\<close>

lemma candidate_fields:
  assumes m: "marked_as c x x1" and s: "set_percent t x1 = Inr x2"
    and d: "candidate_dump E x2 = Inr out"
  shows "py_getitem x ''Name'' = Inr (name out)"
    and "py_get x ''Party'' = Inr (party out)"
    and "candidate_votes x = Inr (votes out)"
    and "candidate_votes x1 = Inr (votes out)"
    and "\<exists>p. votes_percent out = JFloat p \<and>
           (if 0 < t
            then \<exists>q. py_truediv (votes out) t = Inr q \<and> py_round q 4 = Inr p
            else p = 0)"
    and "case incumbent_names c of
           None \<Rightarrow> py_get x ''incumbent'' = Inr (incumbent out)
         | Some inc \<Rightarrow> \<exists>k. name out = JStr k \<and> incumbent out = JBool (str_contains inc k)"
proof -
  note D = candidate_dump_Inr [OF d]
  have k1: "\<And>key. key \<noteq> ''incumbent'' \<Longrightarrow>
      py_getitem x1 key = py_getitem x key \<and> py_get x1 key = py_get x key"
    using marked_as_keeps [OF m] by blast
  have k2: "\<And>key. key \<noteq> ''votes_percent'' \<Longrightarrow>
      py_getitem x2 key = py_getitem x1 key \<and> py_get x2 key = py_get x1 key"
    using set_percent_keeps [OF s] by blast
  show n: "py_getitem x ''Name'' = Inr (name out)"
    using D k1 [of "''Name''"] k2 [of "''Name''"] by simp
  show "py_get x ''Party'' = Inr (party out)"
    using D k1 [of "''Party''"] k2 [of "''Party''"] by simp
  show v1: "candidate_votes x1 = Inr (votes out)"
    using D k2 [of "''Votes''"] by (simp add: candidate_votes_def)
  then show "candidate_votes x = Inr (votes out)"
    using k1 [of "''Votes''"] by (simp add: candidate_votes_def)
  show "\<exists>p. votes_percent out = JFloat p \<and>
           (if 0 < t
            then \<exists>q. py_truediv (votes out) t = Inr q \<and> py_round q 4 = Inr p
            else p = 0)"
    using set_percent_value [OF s] D v1 by (auto split: if_splits)
  have i: "py_get x1 ''incumbent'' = Inr (incumbent out)"
    using D k2 [of "''incumbent''"] by simp
  show "case incumbent_names c of
           None \<Rightarrow> py_get x ''incumbent'' = Inr (incumbent out)
         | Some inc \<Rightarrow> \<exists>k. name out = JStr k \<and> incumbent out = JBool (str_contains inc k)"
    using marked_as_incumbent [OF m] i n by (auto split: option.splits)
qed

text \<open>The candidates of a transformed contest, position by position.\<close>

lemma candidates_pipeline:
  assumes "transform_data E corr raw = Inr d"
  shows "\<exists>given cs c vs.
    py_getitem raw ''candidates'' = Inr given \<and> py_iter given = Inr cs \<and>
    get_correction corr raw = Inr c \<and>
    length cs = length (candidates d) \<and> length vs = length cs \<and>
    (\<forall>i < length cs.
       \<exists>x1 x2. marked_as c (cs ! i) x1 \<and> candidate_votes x1 = Inr (vs ! i) \<and>
         set_percent (sum_list vs) x1 = Inr x2 \<and> candidate_dump E x2 = Inr (candidates d ! i))"
proof -
  from assms obtain given marked cl vs wp where
    g: "py_getitem raw ''candidates'' = Inr given"
    and ci: "correct_incumbent corr raw given = Inr marked"
    and it: "py_iter marked = Inr cl"
    and v: "list_all2 (\<lambda>c v. candidate_votes c = Inr v) cl vs"
    and sp: "list_all2 (\<lambda>c c'. set_percent (sum_list vs) c = Inr c') cl wp"
    and du: "list_all2 (\<lambda>c out. candidate_dump E c = Inr out) wp (candidates d)"
    by (rule transform_data_Inr)
  from ci it obtain c cs where c: "get_correction corr raw = Inr c"
    and cs: "py_iter given = Inr cs" and m: "list_all2 (marked_as c) cs cl"
    by (rule correct_incumbent_marked_as)
  note L = list_all2_lengthD [OF m] list_all2_lengthD [OF v] list_all2_lengthD [OF sp]
    list_all2_lengthD [OF du]
  have "\<exists>x1 x2. marked_as c (cs ! i) x1 \<and> candidate_votes x1 = Inr (vs ! i) \<and>
         set_percent (sum_list vs) x1 = Inr x2 \<and> candidate_dump E x2 = Inr (candidates d ! i)"
    if "i < length cs" for i
    using that L list_all2_nthD [OF m, of i] list_all2_nthD [OF v, of i]
      list_all2_nthD [OF sp, of i] list_all2_nthD [OF du, of i]
    by auto
  with g cs c L show ?thesis by auto
qed

section \<open>The loops of the driver\<close>

lemma emap_fails: "x \<in> set xs \<Longrightarrow> f x = Inl e \<Longrightarrow> \<exists>e'. emap f xs = Inl e'"
proof (induction xs)
  case Nil
  then show ?case by simp
next
  case (Cons a xs)
  show ?case
  proof (cases "f a")
    case (Inl e0)
    then show ?thesis by simp
  next
    case (Inr y)
    with Cons show ?thesis by (cases "emap f xs") auto
  qed
qed

lemma include_contest_kept:
  assumes "include_contest corr raw = Inr b"
  shows "b = kept corr raw"
proof (cases "py_getitem raw ''raceTitle''")
  case (Inl e)
  with assms show ?thesis
    by (cases e) (auto simp: include_contest_def get_correction_def kept_def)
next
  case (Inr title)
  show ?thesis
  proof (cases "\<exists>t. title = JStr t")
    case False
    with Inr assms show ?thesis
      by (cases title) (auto simp: include_contest_def get_correction_def kept_def)
  next
    case True
    then obtain t where t: "title = JStr t" by blast
    with Inr have gc: "get_correction corr raw = Inr (corr t)"
      by (simp add: get_correction_def)
    show ?thesis
    proof (cases "usable (corr t)")
      case None
      with assms gc Inr t show ?thesis by (simp add: include_contest_def kept_def)
    next
      case (Some row)
      with assms gc Inr t show ?thesis
        by (auto simp: include_contest_def kept_def row_item_def ebind_Inr_iff
            split: option.splits)
    qed
  qed
qed

lemma transform_contest_Inr:
  assumes "transform_contest E corr raw = Inr r"
  shows "if kept corr raw then \<exists>d. r = Some d \<and> transform_data E corr raw = Inr d
         else r = None"
proof -
  from assms obtain b where b: "include_contest corr raw = Inr b"
    by (auto simp: transform_contest_def ebind_Inr_iff split: if_splits)
  then have k: "b = kept corr raw" by (rule include_contest_kept)
  from assms b k show ?thesis
    by (auto simp: transform_contest_def dump_contest_def ebind_Inr_iff split: if_splits)
qed

lemma transform_list_Inr:
  "emap (transform_contest E corr) cl = Inr rs \<Longrightarrow>
     list_all2 (\<lambda>raw d. transform_data E corr raw = Inr d) (filter (kept corr) cl) (accepted rs)"
proof (induction cl arbitrary: rs)
  case Nil
  then show ?case by simp
next
  case (Cons raw cl)
  from Cons.prems obtain r rs' where r: "transform_contest E corr raw = Inr r"
    and rs': "emap (transform_contest E corr) cl = Inr rs'" and rs: "rs = r # rs'"
    by (auto simp: ebind_Inr_iff)
  from transform_contest_Inr [OF r] Cons.IH [OF rs'] rs
  show ?case by (auto split: if_splits)
qed

lemma cli_Inr:
  assumes "cli E files corr now dir = (Inr (), dir')"
  obtains contest_list rs where "flatten E files = Inr contest_list"
    "transform_list E corr contest_list = Inr rs"
    "dir' = (dir(now @ ''.json'' \<mapsto> \<lparr>scraped_datetime = now, races = rs\<rparr>))
             (''latest.json'' \<mapsto> \<lparr>scraped_datetime = now, races = rs\<rparr>)"
  using assms
  by (auto simp: cli_def write_json_def Let_def split: sum.splits)

lemma supreme_court_race_Inr:
  "supreme_court_race E (JObj kvs) race = Inr c \<longleftrightarrow>
     (\<exists>nm rep y n. py_getitem race ''Name'' = Inr nm \<and> map_of kvs ''Reporting'' = Some rep \<and>
        py_getitem race ''yesVotes'' = Inr y \<and> py_getitem race ''noVotes'' = Inr n \<and>
        c = JObj [(''raceTitle'', JStr (''Retain Supreme Court Justice '' @ format_value E nm)),
                  (''Reporting'', rep),
                  (''candidates'',
                   JArr [JObj [(''Name'', JStr ''Yes''), (''Votes'', y)],
                         JObj [(''Name'', JStr ''No''), (''Votes'', n)]])])"
  by (auto simp: supreme_court_race_def yes_no_def ebind_Inr_iff split: option.splits)


section \<open>Rounding\<close>

lemma round_half_even_cases:
  "round_half_even x = \<lfloor>x\<rfloor> \<and> x - of_int \<lfloor>x\<rfloor> \<le> 1 / 2
   \<or> round_half_even x = \<lfloor>x\<rfloor> + 1 \<and> 1 / 2 \<le> x - of_int \<lfloor>x\<rfloor>"
  unfolding round_half_even_def Let_def by auto

lemma round_half_even_near: "\<bar>of_int (round_half_even x) - x\<bar> \<le> 1 / 2"
proof -
  have "of_int \<lfloor>x\<rfloor> \<le> x" "x < of_int \<lfloor>x\<rfloor> + 1" by linarith+
  with round_half_even_cases [of x] show ?thesis by auto
qed

lemma round_half_even_nonneg: "0 \<le> x \<Longrightarrow> 0 \<le> round_half_even x"
proof -
  assume "0 \<le> x"
  then have "0 \<le> \<lfloor>x\<rfloor>" by simp
  with round_half_even_cases [of x] show ?thesis by auto
qed

lemma round_half_even_le: "x \<le> of_int n \<Longrightarrow> round_half_even x \<le> n"
proof -
  assume a: "x \<le> of_int n"
  then have f: "\<lfloor>x\<rfloor> \<le> n" by (simp add: floor_le_iff)
  have "\<lfloor>x\<rfloor> < n" if "1 / 2 \<le> x - of_int \<lfloor>x\<rfloor>"
  proof -
    from that a have "(of_int \<lfloor>x\<rfloor> :: rat) < of_int n" by linarith
    then show ?thesis by simp
  qed
  with f round_half_even_cases [of x] show ?thesis by auto
qed

lemma round_half_even_of_int: "round_half_even (of_int n) = n"
  by (simp add: round_half_even_def)

lemma bit_length_nonneg: "0 \<le> bit_length n"
  by (induction n rule: bit_length.induct) (subst bit_length.simps, simp)

lemma bit_length_pos: "1 \<le> n \<Longrightarrow> 1 \<le> bit_length n"
  using bit_length_nonneg [of "n div 2"] by (subst bit_length.simps) simp

lemma bit_length_1: "bit_length 1 = 1"
  by (simp add: bit_length.simps [of 1] bit_length.simps [of 0])

lemma floor_log2_below_1:
  assumes "0 < a" "a < 1"
  shows "floor_log2 a \<le> - 1"
proof -
  have "1 < 1 / a" using assms by simp
  then have "2 \<le> \<lceil>1 / a\<rceil>" by linarith
  then have "1 \<le> bit_length (\<lceil>1 / a\<rceil> - 1)" by (intro bit_length_pos) simp
  with assms show ?thesis by (simp add: floor_log2_def)
qed

lemma pow2_neg: "p < 0 \<Longrightarrow> pow2 p = 1 / 2 ^ nat (- p)"
  by (simp add: pow2_def)

lemma pow2_1024_gt_1: "1 < pow2 1024"
  by (simp add: pow2_def one_less_power)

text \<open>A quotient in the unit interval is hit within \<open>2 ^ - 54\<close>, and stays in the interval.\<close>

lemma binary64_unit_interval:
  assumes "0 \<le> q" "q \<le> 1"
  shows "\<exists>z. binary64 q = Some z \<and> \<bar>z - q\<bar> \<le> 1 / 2 ^ 54 \<and> 0 \<le> z \<and> z \<le> 1"
proof -
  consider "q = 0" | "q = 1" | "0 < q" "q < 1" using assms by linarith
  then show ?thesis
  proof cases
    case 1
    then show ?thesis by (simp add: binary64_def)
  next
    case 2
    have e: "floor_log2 1 = 0" by (simp add: floor_log2_def bit_length_1)
    have "(1::rat) / pow2 (- 52) = of_int (2 ^ 52)" by (simp add: pow2_def)
    then have "round_half_even (1 / pow2 (- 52)) = 2 ^ 52"
      by (simp only: round_half_even_of_int)
    then have "binary64 1 = Some 1"
      using pow2_1024_gt_1 by (simp add: binary64_def e Let_def pow2_neg)
    with 2 show ?thesis by simp
  next
    case 3
    define p where "p = max (floor_log2 q) (- 1022) - 52"
    define k where "k = nat (- p)"
    define m where "m = round_half_even (q / pow2 p)"
    have p: "p \<le> - 53" using floor_log2_below_1 [OF 3] by (simp add: p_def)
    then have k: "53 \<le> k" by (simp add: k_def)
    have pw: "pow2 p = 1 / 2 ^ k" using p by (simp add: pow2_neg k_def)
    have big: "(2::rat) ^ 53 \<le> 2 ^ k" using k by (intro power_increasing) auto
    have x: "q / pow2 p = q * 2 ^ k" by (simp add: pw)
    have m0: "0 \<le> m" unfolding m_def using 3 by (intro round_half_even_nonneg) (simp add: x)
    have "q * 2 ^ k \<le> of_int (2 ^ k)" using 3 by simp
    then have mk: "m \<le> 2 ^ k" unfolding m_def x by (rule round_half_even_le)
    define z where "z = of_int m * pow2 p"
    have z: "z = of_int m / 2 ^ k" by (simp add: z_def pw)
    have z0: "0 \<le> z" using m0 by (simp add: z)
    have "(of_int m :: rat) \<le> 2 ^ k" using mk by (metis of_int_le_iff of_int_numeral of_int_power)
    then have z1: "z \<le> 1" by (simp add: z divide_le_eq)
    have "\<bar>of_int m - q * 2 ^ k\<bar> \<le> 1 / 2" using round_half_even_near [of "q * 2 ^ k"]
      by (simp add: m_def x)
    moreover have "(z - q) * 2 ^ k = of_int m - q * 2 ^ k" by (simp add: z field_simps)
    moreover have "\<bar>z - q\<bar> * 2 ^ k = \<bar>(z - q) * 2 ^ k\<bar>" by (simp add: abs_mult)
    ultimately have "\<bar>z - q\<bar> * 2 ^ k \<le> 1 / 2" by simp
    then have "\<bar>z - q\<bar> \<le> 1 / 2 / 2 ^ k" by (simp add: pos_le_divide_eq)
    also have "\<dots> \<le> 1 / 2 / 2 ^ 53" using big by (intro divide_left_mono) auto
    finally have near: "\<bar>z - q\<bar> \<le> 1 / 2 ^ 54" by simp
    have "\<not> pow2 1024 \<le> z" using z1 pow2_1024_gt_1 by linarith
    then have "binary64 q = Some z"
      using 3 by (simp add: binary64_def Let_def p_def [symmetric] m_def [symmetric] z_def)
    with near z0 z1 show ?thesis by blast
  qed
qed

lemma abs_scaled:
  fixes a c :: rat
  shows "0 < c \<Longrightarrow> \<bar>a * c\<bar> = \<bar>a\<bar> * c"
  by (simp add: abs_mult)

lemma abs_diff_via:
  fixes a b c :: rat
  shows "\<bar>a - c\<bar> \<le> \<bar>a - b\<bar> + \<bar>b - c\<bar>"
  by linarith

lemma py_truediv_unit:
  assumes "0 \<le> k" "k \<le> t" "0 < t"
  shows "\<exists>q. py_truediv k t = Inr q \<and> \<bar>q - of_int k / of_int t\<bar> \<le> 1 / 2 ^ 54 \<and>
           0 \<le> q \<and> q \<le> 1"
proof -
  have "0 \<le> (of_int k / of_int t :: rat)" "(of_int k / of_int t :: rat) \<le> 1"
    using assms by simp_all
  from binary64_unit_interval [OF this] assms(3) show ?thesis
    by (auto simp: py_truediv_def)
qed

lemma py_round_unit:
  assumes "0 \<le> q" "q \<le> 1"
  shows "\<exists>r. py_round q 4 = Inr r \<and> \<bar>r - q\<bar> \<le> 1 / 20000 + 1 / 2 ^ 54"
proof -
  define m where "m = round_half_even (q * 10 ^ 4)"
  define y :: rat where "y = of_int m / 10 ^ 4"
  have m0: "0 \<le> m" unfolding m_def using assms by (intro round_half_even_nonneg) simp
  have "q * 10 ^ 4 \<le> of_int 10000" using assms by simp
  then have m1: "m \<le> 10000" unfolding m_def by (rule round_half_even_le)
  have y0: "0 \<le> y" using m0 by (simp add: y_def)
  have y1: "y \<le> 1" using m1 by (simp add: y_def)
  have "\<bar>of_int m - q * 10 ^ 4\<bar> \<le> 1 / 2"
    unfolding m_def by (rule round_half_even_near)
  moreover have "(y - q) * 10 ^ 4 = of_int m - q * 10 ^ 4" by (simp add: y_def field_simps)
  moreover have "\<bar>(y - q) * 10 ^ 4\<bar> = \<bar>y - q\<bar> * 10 ^ 4"
    by (rule abs_scaled) simp
  ultimately have "\<bar>y - q\<bar> * 10 ^ 4 \<le> 1 / 2" by (simp only:)
  then have yq: "\<bar>y - q\<bar> \<le> 1 / 20000" by simp
  from binary64_unit_interval [OF y0 y1] obtain r where
    r: "binary64 y = Some r" "\<bar>r - y\<bar> \<le> 1 / 2 ^ 54" by blast
  have "py_round q 4 = Inr r" using r(1) by (simp add: py_round_def m_def y_def)
  moreover have "\<bar>r - q\<bar> \<le> 1 / 20000 + 1 / 2 ^ 54" using yq r(2) by linarith
  ultimately show ?thesis by blast
qed

lemma share_near_quotient:
  assumes "0 \<le> k" "k \<le> t" "0 < t" "py_truediv k t = Inr q" "py_round q 4 = Inr r"
  shows "\<bar>r - of_int k / of_int t\<bar> \<le> 1 / 20000 + 1 / 2 ^ 53"
proof -
  from py_truediv_unit [OF assms(1-3)] assms(4)
  have q: "\<bar>q - of_int k / of_int t\<bar> \<le> 1 / 2 ^ 54" "0 \<le> q" "q \<le> 1" by auto
  from py_round_unit [OF q(2,3)] assms(5)
  have rq: "\<bar>r - q\<bar> \<le> 1 / 20000 + 1 / 2 ^ 54" by auto
  have "\<bar>r - of_int k / of_int t\<bar> \<le> \<bar>r - q\<bar> + \<bar>q - of_int k / of_int t\<bar>"
    by (rule abs_diff_via)
  also have "\<dots> \<le> (1 / 20000 + 1 / 2 ^ 54) + 1 / 2 ^ 54"
    using rq q(1) by (rule add_mono)
  also have "\<dots> = 1 / 20000 + 1 / 2 ^ 53" by simp
  finally show ?thesis .
qed

lemma member_le_sum_list_int:
  fixes xs :: "int list"
  shows "\<forall>x \<in> set xs. 0 \<le> x \<Longrightarrow> x \<in> set xs \<Longrightarrow> x \<le> sum_list xs"
proof (induction xs)
  case Nil
  then show ?case by simp
next
  case (Cons a xs)
  then have "0 \<le> a" "0 \<le> sum_list xs" by (auto intro: sum_list_nonneg)
  with Cons show ?case by auto
qed

lemma sum_list_near:
  fixes f g :: "'a \<Rightarrow> rat"
  shows "\<forall>x \<in> set xs. \<bar>f x - g x\<bar> \<le> b \<Longrightarrow>
     \<bar>sum_list (map f xs) - sum_list (map g xs)\<bar> \<le> of_nat (length xs) * b"
proof (induction xs)
  case Nil
  then show ?case by simp
next
  case (Cons a xs)
  then have "\<bar>f a - g a\<bar> \<le> b"
    "\<bar>sum_list (map f xs) - sum_list (map g xs)\<bar> \<le> of_nat (length xs) * b" by auto
  then show ?case by (simp add: algebra_simps abs_le_iff)
qed

lemma sum_list_quotients:
  fixes t :: int
  shows "sum_list (map (\<lambda>x. of_int (f x) / of_int t) xs) = (of_int (sum_list (map f xs)) / of_int t :: rat)"
  by (induction xs) (simp_all add: add_divide_distrib)


section \<open>Evaluation of the examples\<close>

lemma floor_rat_numeral_div [simp]:
  "\<lfloor>numeral a / numeral b :: rat\<rfloor> = numeral a div numeral b"
  by (metis floor_divide_of_int_eq of_int_numeral)

lemma ceiling_rat_numeral_div [simp]:
  "\<lceil>numeral a / numeral b :: rat\<rceil> = - (- numeral a div numeral b)"
  by (metis ceiling_divide_eq_div of_int_numeral)

lemma bit_length_numeral [simp]:
  "bit_length 0 = 0"
  "bit_length 1 = 1"
  "bit_length (numeral (Num.Bit0 n)) = 1 + bit_length (numeral n)"
  "bit_length (numeral (Num.Bit1 n)) = 1 + bit_length (numeral n)"
proof -
  show "bit_length 0 = 0" by (simp add: bit_length.simps [of 0])
  show "bit_length 1 = 1" by (rule bit_length_1)
  have "numeral (Num.Bit0 n) div (2::int) = numeral n" by simp
  then show "bit_length (numeral (Num.Bit0 n)) = 1 + bit_length (numeral n)"
    by (subst bit_length.simps) simp
  have "numeral (Num.Bit1 n) div (2::int) = numeral n" by simp
  then show "bit_length (numeral (Num.Bit1 n)) = 1 + bit_length (numeral n)"
    by (subst bit_length.simps) simp
qed

lemmas string_defs = py_strip_def remove_commas_def py_isspace_def is_digit_def int_space_def
  digits_val_def digit_val_def py_int_def py_lower_def lower_char_def

lemmas float_defs = py_truediv_def py_round_def binary64_def floor_log2_def pow2_def
  round_half_even_def Let_def

lemmas contest_defs = transform_data_def correct_name_def correct_description_def
  correct_geography_def correct_incumbent_def get_correction_def row_item_def
  mark_incumbent_def candidate_votes_def set_percent_def candidate_dump_def
  candidate_transform_data_def dump_candidate_def dump_contest_def include_contest_def
  transform_contest_def transform_list_def

lemmas driver_defs = cli_def flatten_def flatten_file_def supreme_court_race_def
  ballot_measure_race_def yes_no_def format_value_def write_json_def

lemmas example_defs = example_env_def messy_candidates_def messy_contest_def messy_row_def
  unwanted_contest_def unwanted_row_def quiet_contest_def example_corrections_def
  clean_contest_def quiet_result_def marked_candidates_def six_names_def six_way_contest_def
  six_way_result_def race_list_fields_def smith_fields_def smith_contest_def
  bad_votes_file_def no_reporting_file_def example_batch_def

lemma transform_messy:
  "transform_data example_env example_corrections messy_contest = Inr clean_contest"
  by (simp add: contest_defs string_defs float_defs example_defs)

lemma transform_quiet:
  "transform_data example_env example_corrections quiet_contest = Inr quiet_result"
  by (simp add: contest_defs string_defs float_defs example_defs)

lemma one_sixth: "py_truediv 1 6 = Inr (6004799503160661 / 36028797018963968)"
  by (simp add: float_defs)

lemma one_sixth_rounded:
  "py_round (6004799503160661 / 36028797018963968) 4
     = Inr (6006000463061293 / 36028797018963968)"
  by (simp add: float_defs)

lemma transform_six_way:
  "transform_data example_env example_corrections six_way_contest = Inr six_way_result"
  by (simp add: contest_defs string_defs example_defs one_sixth one_sixth_rounded)

lemma mark_messy:
  "correct_incumbent example_corrections messy_contest messy_candidates = Inr marked_candidates"
  by (simp add: contest_defs example_defs)

lemma flatten_race_list:
  "flatten example_env [(''governor'', JObj race_list_fields)]
     = Inr [messy_contest, unwanted_contest, quiet_contest]"
  by (simp add: driver_defs race_list_fields_def)

lemma kept_examples:
  "kept example_corrections messy_contest" "\<not> kept example_corrections unwanted_contest"
  "kept example_corrections quiet_contest"
  by (simp_all add: kept_def string_defs example_defs)

lemma transform_race_list:
  "transform_list example_env example_corrections
     [messy_contest, unwanted_contest, quiet_contest] = Inr [clean_contest, quiet_result]"
proof -
  have "transform_contest example_env example_corrections messy_contest = Inr (Some clean_contest)"
    using transform_messy
    by (simp add: transform_contest_def include_contest_def get_correction_def row_item_def
        dump_contest_def string_defs example_env_def messy_contest_def messy_row_def
        example_corrections_def)
  moreover
  have "transform_contest example_env example_corrections unwanted_contest = Inr None"
    by (simp add: transform_contest_def include_contest_def get_correction_def row_item_def
        string_defs example_env_def unwanted_contest_def unwanted_row_def
        example_corrections_def)
  moreover
  have "transform_contest example_env example_corrections quiet_contest = Inr (Some quiet_result)"
    using transform_quiet
    by (simp add: transform_contest_def include_contest_def get_correction_def row_item_def
        dump_contest_def string_defs example_env_def quiet_contest_def
        example_corrections_def)
  ultimately show ?thesis by (simp add: transform_list_def)
qed

lemma cli_race_list:
  "cli example_env [(''governor'', JObj race_list_fields)] example_corrections now dir
     = (Inr (), write_json (example_batch now) ''latest.json''
                 (write_json (example_batch now) (now @ ''.json'') dir))"
  by (simp add: cli_def flatten_race_list transform_race_list example_batch_def Let_def)

section \<open>Vote-count parsing\<close>




section \<open>Vote shares\<close>

text \<open>What \<^verbatim>\<open>transform_data\<close> makes of the raw candidates, field by field.\<close>

lemma transform_data_candidates:
  assumes "transform_data E corr raw = Inr d"
  shows "\<exists>given cs. py_getitem raw ''candidates'' = Inr given \<and> py_iter given = Inr cs \<and>
           length (candidates d) = length cs \<and>
           list_all2 (\<lambda>x out. py_getitem x ''Name'' = Inr (name out) \<and>
                              py_get x ''Party'' = Inr (party out) \<and>
                              candidate_votes x = Inr (votes out))
             cs (candidates d) \<and>
           (\<forall>out \<in> set (candidates d).
              if 0 < sum_list (map votes (candidates d))
              then \<exists>q r. py_truediv (votes out) (sum_list (map votes (candidates d))) = Inr q \<and>
                     py_round q 4 = Inr r \<and> votes_percent out = JFloat r
              else votes_percent out = JFloat 0)"
proof -
  obtain given cs c vs where
    g: "py_getitem raw ''candidates'' = Inr given" "py_iter given = Inr cs"
    and "get_correction corr raw = Inr c"
    and len: "length cs = length (candidates d)" "length vs = length cs"
    and step: "\<And>i. i < length cs \<Longrightarrow>
       \<exists>x1 x2. marked_as c (cs ! i) x1 \<and> candidate_votes x1 = Inr (vs ! i) \<and>
         set_percent (sum_list vs) x1 = Inr x2 \<and> candidate_dump E x2 = Inr (candidates d ! i)"
    using candidates_pipeline [OF assms] by blast
  have vs: "vs = map votes (candidates d)"
  proof (rule nth_equalityI)
    show "length vs = length (map votes (candidates d))" using len by simp
    fix i assume "i < length vs"
    then have i: "i < length cs" using len by simp
    from step [OF i] obtain x1 x2 where x: "marked_as c (cs ! i) x1"
      "set_percent (sum_list vs) x1 = Inr x2" "candidate_dump E x2 = Inr (candidates d ! i)"
      and v: "candidate_votes x1 = Inr (vs ! i)"
      by blast
    from candidate_fields(4) [OF x] v i len
    show "vs ! i = map votes (candidates d) ! i" by simp
  qed
  have fields: "list_all2 (\<lambda>x out. py_getitem x ''Name'' = Inr (name out) \<and>
                              py_get x ''Party'' = Inr (party out) \<and>
                              candidate_votes x = Inr (votes out))
             cs (candidates d)"
  proof (rule list_all2_all_nthI [OF len(1)])
    fix i assume "i < length cs"
    from step [OF this] obtain x1 x2 where "marked_as c (cs ! i) x1"
      "set_percent (sum_list vs) x1 = Inr x2" "candidate_dump E x2 = Inr (candidates d ! i)"
      by blast
    from candidate_fields(1-3) [OF this]
    show "py_getitem (cs ! i) ''Name'' = Inr (name (candidates d ! i)) \<and>
          py_get (cs ! i) ''Party'' = Inr (party (candidates d ! i)) \<and>
          candidate_votes (cs ! i) = Inr (votes (candidates d ! i))"
      by simp
  qed
  have "if 0 < sum_list (map votes (candidates d))
        then \<exists>q r. py_truediv (votes out) (sum_list (map votes (candidates d))) = Inr q \<and>
               py_round q 4 = Inr r \<and> votes_percent out = JFloat r
        else votes_percent out = JFloat 0"
    if "out \<in> set (candidates d)" for out
  proof -
    from that obtain i where i: "i < length cs" and out: "out = candidates d ! i"
      using len by (auto simp: in_set_conv_nth)
    from step [OF i] obtain x1 x2 where "marked_as c (cs ! i) x1"
      "set_percent (sum_list vs) x1 = Inr x2" "candidate_dump E x2 = Inr (candidates d ! i)"
      by blast
    from candidate_fields(5) [OF this] out vs
    show ?thesis by (auto split: if_splits)
  qed
  with g len fields show ?thesis by auto
qed

text \<open>
  C1.  In every contest that \<^verbatim>\<open>transform_data\<close> produces, the \<^verbatim>\<open>votes\<close> of the candidates
  are the vote counts parsed from the raw candidates, in order, and the shares are computed
  from them: when their total is positive, each \<^verbatim>\<open>votes_percent\<close> is
  \<^verbatim>\<open>round(votes / total, 4)\<close>; otherwise (in particular when the total is 0) each
  \<^verbatim>\<open>votes_percent\<close> is exactly \<^verbatim>\<open>0.0\<close>.
\<close>

theorem votes_percent_of_total:
  assumes "transform_data E corr raw = Inr d"
  shows "\<exists>given cs. py_getitem raw ''candidates'' = Inr given \<and> py_iter given = Inr cs \<and>
           list_all2 (\<lambda>x out. candidate_votes x = Inr (votes out)) cs (candidates d) \<and>
           (\<forall>out \<in> set (candidates d).
              if 0 < sum_list (map votes (candidates d))
              then \<exists>q r. py_truediv (votes out) (sum_list (map votes (candidates d))) = Inr q \<and>
                     py_round q 4 = Inr r \<and> votes_percent out = JFloat r
              else votes_percent out = JFloat 0)"
proof -
  from transform_data_candidates [OF assms] obtain given cs where
    g: "py_getitem raw ''candidates'' = Inr given" "py_iter given = Inr cs"
    and f: "list_all2 (\<lambda>x out. py_getitem x ''Name'' = Inr (name out) \<and>
                              py_get x ''Party'' = Inr (party out) \<and>
                              candidate_votes x = Inr (votes out))
             cs (candidates d)"
    and p: "\<forall>out \<in> set (candidates d).
              if 0 < sum_list (map votes (candidates d))
              then \<exists>q r. py_truediv (votes out) (sum_list (map votes (candidates d))) = Inr q \<and>
                     py_round q 4 = Inr r \<and> votes_percent out = JFloat r
              else votes_percent out = JFloat 0"
    by blast
  from f have "list_all2 (\<lambda>x out. candidate_votes x = Inr (votes out)) cs (candidates d)"
    by (rule list_all2_mono) simp
  with g p show ?thesis by blast
qed

theorem votes_percent_of_total_witness:
  "transform_data example_env example_corrections messy_contest = Inr clean_contest
   \<and> sum_list (map votes (candidates clean_contest)) = 2
   \<and> py_truediv 1 2 = Inr (1 / 2) \<and> py_round (1 / 2) 4 = Inr (1 / 2)
   \<and> map votes_percent (candidates clean_contest) = [JFloat (1 / 2), JFloat (1 / 2)]
   \<and> transform_data example_env example_corrections quiet_contest = Inr quiet_result
   \<and> sum_list (map votes (candidates quiet_result)) = 0
   \<and> map votes_percent (candidates quiet_result) = [JFloat 0, JFloat 0]"
  using votes_percent_of_total [OF transform_messy] votes_percent_of_total [OF transform_quiet]
    transform_messy transform_quiet
  by (simp add: clean_contest_def quiet_result_def float_defs)

text \<open>
  C6 (as amended).  In a contest whose parsed vote counts are not negative and have a
  positive total, the sum of the shares differs from 1 by at most \<open>n\<close> times
  \<open>0.00005 + 2 ^ -53\<close>, where \<open>n\<close> is the number of candidates: each share is within half
  a unit of the fourth decimal, and two roundings to a double, of its exact quotient.
\<close>

theorem shares_sum_near_one:
  assumes "transform_data E corr raw = Inr d"
    and "0 < sum_list (map votes (candidates d))"
    and "\<forall>out \<in> set (candidates d). 0 \<le> votes out"
  shows "\<bar>shares_sum d - 1\<bar> \<le> of_nat (length (candidates d)) * (1 / 20000 + 1 / 2 ^ 53)"
proof -
  define t where "t = sum_list (map votes (candidates d))"
  have near: "\<bar>percent_value (votes_percent out) - of_int (votes out) / of_int t\<bar>
        \<le> 1 / 20000 + 1 / 2 ^ 53"
    if "out \<in> set (candidates d)" for out
  proof -
    from transform_data_candidates [OF assms(1)] that assms(2)
    obtain q r where q: "py_truediv (votes out) t = Inr q" and r: "py_round q 4 = Inr r"
      and v: "votes_percent out = JFloat r"
      unfolding t_def by (auto split: if_splits)
    have "0 \<le> votes out" using assms(3) that by blast
    moreover have "votes out \<le> t"
      unfolding t_def using assms(3) that by (intro member_le_sum_list_int) auto
    moreover have "0 < t" using assms(2) by (simp add: t_def)
    ultimately show ?thesis
      using share_near_quotient [OF _ _ _ q r] v by (simp add: percent_value_def)
  qed
  have "sum_list (map (\<lambda>out. of_int (votes out) / of_int t) (candidates d)) = (1::rat)"
    using assms(2) by (simp add: sum_list_quotients t_def [symmetric])
  with sum_list_near [of "candidates d" "\<lambda>out. percent_value (votes_percent out)"
      "\<lambda>out. of_int (votes out) / of_int t" "1 / 20000 + 1 / 2 ^ 53"] near
  show ?thesis by (simp add: shares_sum_def)
qed

theorem shares_sum_near_one_witness:
  "transform_data example_env example_corrections messy_contest = Inr clean_contest
   \<and> 0 < sum_list (map votes (candidates clean_contest))
   \<and> map votes (candidates clean_contest) = [1, 1]
   \<and> shares_sum clean_contest = 1
   \<and> \<bar>shares_sum clean_contest - 1\<bar> \<le> 2 * (1 / 20000 + 1 / 2 ^ 53)"
  using shares_sum_near_one [OF transform_messy] transform_messy
  by (simp add: clean_contest_def shares_sum_def percent_value_def)

text \<open>
  Six candidates with one vote each get the share 0.1667 each: the sum is 1.0002, further
  from 1 than 0.0001.
\<close>

theorem shares_sum_counterexample:
  "transform_data example_env example_corrections six_way_contest = Inr six_way_result
   \<and> map votes (candidates six_way_result) = [1, 1, 1, 1, 1, 1]
   \<and> 1 / 10000 < \<bar>shares_sum six_way_result - 1\<bar>"
  using transform_six_way
  by (simp add: six_way_result_def six_names_def shares_sum_def percent_value_def)

section \<open>Candidates\<close>

text \<open>
  C10.  The candidates of a contest that \<^verbatim>\<open>transform_data\<close> produces are as many as the
  raw candidates and in the same order: the candidate at each position has the name, the
  party and the parsed vote count of the raw candidate at that position.
\<close>

theorem candidates_same_length_and_order:
  assumes "transform_data E corr raw = Inr d"
  shows "\<exists>given cs. py_getitem raw ''candidates'' = Inr given \<and> py_iter given = Inr cs \<and>
           length (candidates d) = length cs \<and>
           list_all2 (\<lambda>x out. py_getitem x ''Name'' = Inr (name out) \<and>
                              py_get x ''Party'' = Inr (party out) \<and>
                              candidate_votes x = Inr (votes out))
             cs (candidates d)"
  using transform_data_candidates [OF assms] by blast

theorem candidates_same_length_and_order_witness:
  "transform_data example_env example_corrections messy_contest = Inr clean_contest
   \<and> py_getitem messy_contest ''candidates'' = Inr messy_candidates
   \<and> py_iter messy_candidates
       = Inr [JObj [(''Name'', JStr ''Alice''), (''Votes'', JStr ''1'')],
              JObj [(''Name'', JStr ''Bob''), (''Votes'', JStr ''1'')]]
   \<and> map name (candidates clean_contest) = [JStr ''Alice'', JStr ''Bob'']"
  using candidates_same_length_and_order [OF transform_messy] transform_messy
  by (simp add: clean_contest_def messy_contest_def messy_candidates_def)

text \<open>
  C5 (as amended).  When the correction row of a contest specifies an incumbent value,
  \<^verbatim>\<open>correct_incumbent\<close> sets the \<^verbatim>\<open>incumbent\<close> field of every candidate: to true when the
  candidate's name is a substring of that value, and to false when it is not, whatever
  the field held before.  With no row, or a row whose incumbent value is empty, the field
  of every candidate is as it was.  No other field of a candidate is changed.
\<close>

theorem correct_incumbent_sets_every_candidate:
  assumes "correct_incumbent corr raw given = Inr marked" "py_iter marked = Inr cs'"
  shows "\<exists>c cs. get_correction corr raw = Inr c \<and> py_iter given = Inr cs \<and>
           list_all2 (\<lambda>x y.
               (case incumbent_names c of
                  None \<Rightarrow> py_get y ''incumbent'' = py_get x ''incumbent''
                | Some inc \<Rightarrow> \<exists>k. py_getitem x ''Name'' = Inr (JStr k) \<and>
                     py_get y ''incumbent'' = Inr (JBool (str_contains inc k))) \<and>
               (\<forall>key. key \<noteq> ''incumbent'' \<longrightarrow> py_get y key = py_get x key))
             cs cs'"
proof -
  from assms obtain c cs where c: "get_correction corr raw = Inr c" "py_iter given = Inr cs"
    and m: "list_all2 (marked_as c) cs cs'"
    by (rule correct_incumbent_marked_as)
  have "list_all2 (\<lambda>x y.
               (case incumbent_names c of
                  None \<Rightarrow> py_get y ''incumbent'' = py_get x ''incumbent''
                | Some inc \<Rightarrow> \<exists>k. py_getitem x ''Name'' = Inr (JStr k) \<and>
                     py_get y ''incumbent'' = Inr (JBool (str_contains inc k))) \<and>
               (\<forall>key. key \<noteq> ''incumbent'' \<longrightarrow> py_get y key = py_get x key))
             cs cs'"
    using m
  proof (rule list_all2_mono)
    fix x y assume "marked_as c x y"
    from marked_as_incumbent [OF this] marked_as_keeps [OF this]
    show "(case incumbent_names c of
                  None \<Rightarrow> py_get y ''incumbent'' = py_get x ''incumbent''
                | Some inc \<Rightarrow> \<exists>k. py_getitem x ''Name'' = Inr (JStr k) \<and>
                     py_get y ''incumbent'' = Inr (JBool (str_contains inc k))) \<and>
               (\<forall>key. key \<noteq> ''incumbent'' \<longrightarrow> py_get y key = py_get x key)"
      by blast
  qed
  with c show ?thesis by blast
qed

theorem correct_incumbent_sets_every_candidate_witness:
  "correct_incumbent example_corrections messy_contest messy_candidates = Inr marked_candidates
   \<and> py_iter marked_candidates
       = Inr [JObj [(''Name'', JStr ''Alice''), (''Votes'', JStr ''1''),
                    (''incumbent'', JBool True)],
              JObj [(''Name'', JStr ''Bob''), (''Votes'', JStr ''1''),
                    (''incumbent'', JBool False)]]
   \<and> get_correction example_corrections messy_contest = Inr (Some messy_row)
   \<and> incumbent_names (Some messy_row) = Some ''Alice''
   \<and> str_contains ''Alice'' ''Alice'' \<and> \<not> str_contains ''Alice'' ''Bob''"
  using correct_incumbent_sets_every_candidate [OF mark_messy, of "[JObj [(''Name'', JStr ''Alice''), (''Votes'', JStr ''1''),
                    (''incumbent'', JBool True)],
              JObj [(''Name'', JStr ''Bob''), (''Votes'', JStr ''1''),
                    (''incumbent'', JBool False)]]"] mark_messy
  by (simp add: marked_candidates_def get_correction_def incumbent_names_def messy_contest_def
      example_corrections_def messy_row_def)

text \<open>
  Bob is not named by the incumbent value ``Alice''.  His raw record has no \<^verbatim>\<open>incumbent\<close>
  field; after the marking the field is false, and so it is in the output.
\<close>

theorem correct_incumbent_counterexample:
  "correct_incumbent example_corrections messy_contest
     (JArr [JObj [(''Name'', JStr ''Alice''), (''Votes'', JStr ''1'')],
            JObj [(''Name'', JStr ''Bob''), (''Votes'', JStr ''1'')]])
     = Inr (JArr [JObj [(''Name'', JStr ''Alice''), (''Votes'', JStr ''1''),
                        (''incumbent'', JBool True)],
                  JObj [(''Name'', JStr ''Bob''), (''Votes'', JStr ''1''),
                        (''incumbent'', JBool False)]])
   \<and> py_get (JObj [(''Name'', JStr ''Bob''), (''Votes'', JStr ''1'')]) ''incumbent'' = Inr JNull
   \<and> transform_data example_env example_corrections messy_contest = Inr clean_contest
   \<and> map incumbent (candidates clean_contest) = [JBool True, JBool False]"
  using mark_messy transform_messy
  by (simp add: marked_candidates_def messy_candidates_def clean_contest_def)

section \<open>Names and slugs\<close>

text \<open>
  C3.  The name of a contest that \<^verbatim>\<open>transform_data\<close> produces is the clean name of the
  correction row of its raw title when there is such a row and its clean name is not
  empty, and the raw title as it is otherwise; the slug is the slug of the raw title in
  both cases.
\<close>

theorem name_corrected_slug_from_raw_title:
  assumes "transform_data E corr raw = Inr d"
  shows "\<exists>title. py_getitem raw ''raceTitle'' = Inr title \<and>
           slugify E title = Inr (slug d) \<and>
           contest_name d = (case clean_name corr title of Some cn \<Rightarrow> JStr cn | None \<Rightarrow> title)"
proof -
  from assms obtain title where t: "py_getitem raw ''raceTitle'' = Inr title"
    and s: "slugify E title = Inr (slug d)"
    and n: "correct_name corr raw = Inr (contest_name d)"
    by (rule transform_data_Inr)
  have "contest_name d = (case clean_name corr title of Some cn \<Rightarrow> JStr cn | None \<Rightarrow> title)"
  proof (cases "\<exists>t. title = JStr t")
    case False
    then have "clean_name corr title = None" "get_correction corr raw = Inr None \<or>
        get_correction corr raw = Inl TypeError"
      using t by (cases title; simp add: clean_name_def get_correction_def)+
    with n t show ?thesis by (auto simp: correct_name_def)
  next
    case True
    then obtain tt where tt: "title = JStr tt" by blast
    then have gc: "get_correction corr raw = Inr (corr tt)"
      using t by (simp add: get_correction_def)
    show ?thesis
    proof (cases "usable (corr tt)")
      case None
      then have "clean_name corr title = None"
        using tt by (cases "corr tt") (auto simp: clean_name_def split: if_splits)
      with n t gc None show ?thesis by (simp add: correct_name_def)
    next
      case (Some row)
      then have row: "corr tt = Some row" "row \<noteq> []"
        by (cases "corr tt"; auto split: if_splits)+
      from n gc Some obtain cell where cell: "map_of row ''clean_name'' = Some cell"
        and r: "(if cell_true cell then Inr (JStr (the cell)) else py_getitem raw ''raceTitle'')
                = Inr (contest_name d)"
        by (auto simp: correct_name_def row_item_def ebind_Inr_iff split: option.splits)
      show ?thesis
      proof (cases "cell_true cell")
        case True
        then obtain cn where "cell = Some cn" "cn \<noteq> []" by (cases cell) auto
        with r cell row tt show ?thesis by (simp add: clean_name_def)
      next
        case False
        then have "clean_name corr title = None"
          using cell row tt by (cases cell) (auto simp: clean_name_def)
        with r False t show ?thesis by simp
      qed
    qed
  qed
  with t s show ?thesis by blast
qed

theorem name_corrected_slug_from_raw_title_witness:
  "transform_data example_env example_corrections messy_contest = Inr clean_contest
   \<and> py_getitem messy_contest ''raceTitle'' = Inr (JStr ''Messy Title'')
   \<and> clean_name example_corrections (JStr ''Messy Title'') = Some ''Clean Title''
   \<and> contest_name clean_contest = JStr ''Clean Title''
   \<and> slugify example_env (JStr ''Messy Title'') = Inr (slug clean_contest)
   \<and> transform_data example_env example_corrections quiet_contest = Inr quiet_result
   \<and> clean_name example_corrections (JStr ''Quiet Race'') = None
   \<and> contest_name quiet_result = JStr ''Quiet Race''"
  using name_corrected_slug_from_raw_title [OF transform_messy]
    name_corrected_slug_from_raw_title [OF transform_quiet] transform_messy transform_quiet
  by (simp add: clean_name_def string_defs example_defs)

section \<open>Inclusion\<close>

text \<open>
  C2.  After a run of \<^verbatim>\<open>cli\<close> that succeeds, the \<^verbatim>\<open>races\<close> of both output files are
  the transformed contests of exactly those flattened raw contests, in order, that have no
  correction row for their exact raw title or whose row has an \<^verbatim>\<open>include\<close> flag equal to
  ``yes'' when lowered; a contest whose row has any other flag is absent.
\<close>

theorem contest_present_iff_kept:
  assumes "cli E files corr now dir = (Inr (), dir')"
  shows "\<exists>contest_list out. flatten E files = Inr contest_list \<and>
           dir' ''latest.json'' = Some out \<and> dir' (now @ ''.json'') = Some out \<and>
           list_all2 (\<lambda>raw d. transform_data E corr raw = Inr d)
             (filter (kept corr) contest_list) (races out)"
proof -
  from assms obtain contest_list rs where f: "flatten E files = Inr contest_list"
    and t: "transform_list E corr contest_list = Inr rs"
    and d: "dir' = (dir(now @ ''.json'' \<mapsto> \<lparr>scraped_datetime = now, races = rs\<rparr>))
             (''latest.json'' \<mapsto> \<lparr>scraped_datetime = now, races = rs\<rparr>)"
    by (rule cli_Inr)
  from t obtain os where "emap (transform_contest E corr) contest_list = Inr os"
    and "rs = accepted os"
    by (auto simp: transform_list_def ebind_Inr_iff)
  with transform_list_Inr [of E corr contest_list os]
  have "list_all2 (\<lambda>raw d. transform_data E corr raw = Inr d)
             (filter (kept corr) contest_list) rs" by simp
  with f d show ?thesis by simp
qed

theorem contest_present_iff_kept_witness:
  "cli example_env [(''governor'', JObj race_list_fields)] example_corrections example_now
       earlier_output
     = (Inr (), write_json (example_batch example_now) ''latest.json''
                 (write_json (example_batch example_now) (example_now @ ''.json'')
                    earlier_output))
   \<and> flatten example_env [(''governor'', JObj race_list_fields)]
       = Inr [messy_contest, unwanted_contest, quiet_contest]
   \<and> filter (kept example_corrections) [messy_contest, unwanted_contest, quiet_contest]
       = [messy_contest, quiet_contest]
   \<and> races (example_batch example_now) = [clean_contest, quiet_result]"
  using contest_present_iff_kept [OF cli_race_list [of example_now earlier_output]]
    cli_race_list flatten_race_list kept_examples
  by (simp add: example_batch_def)

section \<open>Flattening\<close>

text \<open>
  C7.  A raw document without a \<^verbatim>\<open>races\<close> key, in the directory \<^verbatim>\<open>supreme-court\<close>, is
  flattened into exactly one contest for each entry of its \<^verbatim>\<open>supreme-court\<close> list, in
  order: titled ``Retain Supreme Court Justice'' and the entry's name, with the document's
  \<^verbatim>\<open>Reporting\<close>, and with the two candidates ``Yes'' and ``No'' whose votes are the entry's
  \<^verbatim>\<open>yesVotes\<close> and \<^verbatim>\<open>noVotes\<close>.  A document with a \<^verbatim>\<open>races\<close> key gives the elements
  of that list, whatever its directory.
\<close>

theorem supreme_court_flattening:
  "(''races'' \<notin> fst ` set kvs \<longrightarrow>
      (flatten_file E ''supreme-court'' (JObj kvs) = Inr cl \<longleftrightarrow>
        (\<exists>l entries. map_of kvs ''supreme-court'' = Some l \<and> py_iter l = Inr entries \<and>
           list_all2 (\<lambda>race c. \<exists>nm rep y n.
               py_getitem race ''Name'' = Inr nm \<and> map_of kvs ''Reporting'' = Some rep \<and>
               py_getitem race ''yesVotes'' = Inr y \<and> py_getitem race ''noVotes'' = Inr n \<and>
               c = JObj [(''raceTitle'',
                            JStr (''Retain Supreme Court Justice '' @ format_value E nm)),
                         (''Reporting'', rep),
                         (''candidates'',
                          JArr [JObj [(''Name'', JStr ''Yes''), (''Votes'', y)],
                                JObj [(''Name'', JStr ''No''), (''Votes'', n)]])])
             entries cl)))
   \<and> (map_of kvs' ''races'' = Some rs \<longrightarrow> flatten_file E stem (JObj kvs') = py_iter rs)"
proof (intro conjI impI)
  assume "''races'' \<notin> fst ` set kvs"
  then show "flatten_file E ''supreme-court'' (JObj kvs) = Inr cl \<longleftrightarrow>
        (\<exists>l entries. map_of kvs ''supreme-court'' = Some l \<and> py_iter l = Inr entries \<and>
           list_all2 (\<lambda>race c. \<exists>nm rep y n.
               py_getitem race ''Name'' = Inr nm \<and> map_of kvs ''Reporting'' = Some rep \<and>
               py_getitem race ''yesVotes'' = Inr y \<and> py_getitem race ''noVotes'' = Inr n \<and>
               c = JObj [(''raceTitle'',
                            JStr (''Retain Supreme Court Justice '' @ format_value E nm)),
                         (''Reporting'', rep),
                         (''candidates'',
                          JArr [JObj [(''Name'', JStr ''Yes''), (''Votes'', y)],
                                JObj [(''Name'', JStr ''No''), (''Votes'', n)]])])
             entries cl)"
    by (auto simp: flatten_file_def ebind_Inr_iff emap_Inr_iff supreme_court_race_Inr
        split: option.splits)
next
  assume "map_of kvs' ''races'' = Some rs"
  moreover from this have "''races'' \<in> fst ` set kvs'"
    by (metis map_of_eq_None_iff option.distinct(1))
  ultimately show "flatten_file E stem (JObj kvs') = py_iter rs"
    by (simp add: flatten_file_def)
qed

theorem supreme_court_flattening_witness:
  "''races'' \<notin> fst ` set smith_fields
   \<and> flatten_file example_env ''supreme-court'' (JObj smith_fields) = Inr [smith_contest]
   \<and> map_of race_list_fields ''races''
       = Some (JArr [messy_contest, unwanted_contest, quiet_contest])
   \<and> flatten_file example_env ''supreme-court'' (JObj race_list_fields)
       = Inr [messy_contest, unwanted_contest, quiet_contest]"
  using supreme_court_flattening [of smith_fields example_env "[smith_contest]"
      race_list_fields "JArr [messy_contest, unwanted_contest, quiet_contest]"
      "''supreme-court''"]
  by (simp add: driver_defs smith_fields_def smith_contest_def race_list_fields_def)

section \<open>Runs of the driver\<close>



text \<open>
  C9.  A run in which the flattening of some raw file, or the normalisation or validation
  of some flattened contest, raises an error ends with an error and leaves the output
  directory as it was: neither the timestamped file nor \<^verbatim>\<open>latest.json\<close> is written.
\<close>

theorem no_output_written_on_error:
  "(flatten E files = Inl e \<longrightarrow> cli E files corr now dir = (Inl e, dir))
   \<and> (f \<in> set files \<and> flatten_file E (fst f) (snd f) = Inl e1
        \<longrightarrow> (\<exists>e'. cli E files corr now dir = (Inl e', dir)))
   \<and> (flatten E files' = Inr contest_list \<and> raw \<in> set contest_list \<and>
        transform_contest E corr raw = Inl e2
        \<longrightarrow> (\<exists>e'. cli E files' corr now dir = (Inl e', dir)))
   \<and> (fst (cli E files'' corr now dir) = Inl e3 \<longrightarrow> snd (cli E files'' corr now dir) = dir)"
proof (intro conjI impI)
  assume "flatten E files = Inl e"
  then show "cli E files corr now dir = (Inl e, dir)" by (simp add: cli_def)
next
  assume "f \<in> set files \<and> flatten_file E (fst f) (snd f) = Inl e1"
  then have "\<exists>e'. emap (\<lambda>f. flatten_file E (fst f) (snd f)) files = Inl e'"
    using emap_fails [of f files "\<lambda>f. flatten_file E (fst f) (snd f)" e1] by simp
  then show "\<exists>e'. cli E files corr now dir = (Inl e', dir)"
    by (auto simp: cli_def flatten_def)
next
  assume a: "flatten E files' = Inr contest_list \<and> raw \<in> set contest_list \<and>
        transform_contest E corr raw = Inl e2"
  then have "\<exists>e'. emap (transform_contest E corr) contest_list = Inl e'"
    using emap_fails [of raw contest_list "transform_contest E corr" e2] by simp
  with a show "\<exists>e'. cli E files' corr now dir = (Inl e', dir)"
    by (auto simp: cli_def transform_list_def)
next
  assume "fst (cli E files'' corr now dir) = Inl e3"
  then show "snd (cli E files'' corr now dir) = dir"
    by (auto simp: cli_def Let_def split: sum.splits)
qed

theorem no_output_written_on_error_witness:
  "flatten example_env [(''supreme-court'', no_reporting_file)] = Inl (KeyError ''Reporting'')
   \<and> flatten_file example_env ''supreme-court'' no_reporting_file = Inl (KeyError ''Reporting'')
   \<and> cli example_env [(''supreme-court'', no_reporting_file)] example_corrections example_now
         earlier_output
       = (Inl (KeyError ''Reporting''), earlier_output)
   \<and> flatten example_env [(''governor'', bad_votes_file)] = Inr [bad_votes_file]
   \<and> transform_contest example_env example_corrections bad_votes_file = Inl ValueError
   \<and> cli example_env [(''governor'', bad_votes_file)] example_corrections example_now
         earlier_output
       = (Inl ValueError, earlier_output)
   \<and> flatten rejecting_env [(''governor'', quiet_contest)] = Inr [quiet_contest]
   \<and> transform_contest rejecting_env example_corrections quiet_contest = Inl ValidationError
   \<and> cli rejecting_env [(''governor'', quiet_contest)] example_corrections example_now
         earlier_output
       = (Inl ValidationError, earlier_output)"
  using no_output_written_on_error [of example_env "[(''supreme-court'', no_reporting_file)]"
      "KeyError ''Reporting''" example_corrections example_now earlier_output
      "(''supreme-court'', no_reporting_file)" "KeyError ''Reporting''"
      "[(''governor'', bad_votes_file)]" "[bad_votes_file]" bad_votes_file ValueError
      "[(''governor'', bad_votes_file)]" ValueError]
    no_output_written_on_error [of rejecting_env "[]" ValueError example_corrections
      example_now earlier_output "(''governor'', quiet_contest)" ValueError
      "[(''governor'', quiet_contest)]" "[quiet_contest]" quiet_contest ValidationError
      "[(''governor'', quiet_contest)]" ValidationError]
  by (simp add: driver_defs contest_defs string_defs example_env_def rejecting_env_def
      bad_votes_file_def no_reporting_file_def quiet_contest_def example_corrections_def)

end
